theory Spec2Isabelle
  imports Complex_Main
begin

section \<open>Numbers, points and scene entities\<close>

text \<open>
  The program is TypeScript; every \<^verbatim>\<open>number\<close> of the source is modelled as a
  \<^typ>\<open>real\<close>, so arithmetic is exact: rounding of IEEE doubles, signed zeros, NaN and
  infinities are outside this model. The one property that depends on the rounding, the
  double reflection of a position, is stated on binary64 arithmetic, defined in a section
  of its own below. Counters that the source only ever uses as integers
  (\<^verbatim>\<open>order\<close>, \<^verbatim>\<open>maxReflections\<close>, \<^verbatim>\<open>reflection\<close>) are \<^typ>\<open>int\<close>.

  Selectors carry a prefix naming their interface (\<open>m_\<close> for \<^verbatim>\<open>MirrorProps\<close>,
  \<open>o_\<close> for \<^verbatim>\<open>ObjectProps\<close>, \<open>v_\<close> for \<^verbatim>\<open>VirtualImage\<close>, \<open>ob_\<close> for
  \<^verbatim>\<open>ObserverProps\<close>), because the interfaces of \<^verbatim>\<open>types.ts\<close> share field names.
\<close>

datatype point = Point (px: real) (py: real)

text \<open>
  \<^verbatim>\<open>MirrorProps\<close>. The source compares mirrors by object identity (\<^verbatim>\<open>===\<close>,
  \<^verbatim>\<open>!==\<close>, \<^verbatim>\<open>Array.includes\<close>), never by their fields. The field \<open>m_ident\<close> is that
  identity (the address of the object); it is not a field of the TypeScript interface.
  Optional fields are options.
\<close>

datatype mirror = Mirror
  (m_ident: nat)
  (m_position: point)
  (m_width: real)
  (m_height: real)
  (m_rotation: real)
  (m_isVirtual: "bool option")
  (m_order: "int option")
  (m_sourceMirror: "mirror option")

record ObjectProps =
  o_position :: point
  o_size :: real
  o_direction :: real

record VirtualImage =
  v_position :: point
  v_direction :: real
  v_size :: real
  v_order :: int
  v_sourceMirror :: mirror

record ObserverProps =
  ob_position :: point
  ob_size :: real
  ob_color :: string

text \<open>\<^verbatim>\<open>a === b\<close> on two mirror objects.\<close>

definition same_mirror :: "mirror \<Rightarrow> mirror \<Rightarrow> bool" where
  "same_mirror a b = (m_ident a = m_ident b)"

text \<open>\<^verbatim>\<open>group.includes(m)\<close> on an array of mirror objects.\<close>

definition group_includes :: "mirror list \<Rightarrow> mirror \<Rightarrow> bool" where
  "group_includes g m = (\<exists>k \<in> set g. same_mirror k m)"

text \<open>
  The remainder operator \<^verbatim>\<open>a % b\<close> of JavaScript on numbers: the quotient is truncated
  towards zero, so the result has the sign of the dividend.
\<close>

definition js_trunc :: "real \<Rightarrow> int" where
  "js_trunc r = (if 0 \<le> r then \<lfloor>r\<rfloor> else - \<lfloor>- r\<rfloor>)"

definition js_rem :: "real \<Rightarrow> real \<Rightarrow> real" where
  "js_rem a b = a - b * of_int (js_trunc (a / b))"

text \<open>\<^verbatim>\<open>Math.round\<close>: the nearest integer, a tie going up.\<close>

definition js_round :: "real \<Rightarrow> int" where
  "js_round r = \<lfloor>r + 1 / 2\<rfloor>"

text \<open>
  \<^verbatim>\<open>Math.atan2(y, x)\<close> on reals (without the signed zeros of the source).
\<close>

definition js_atan2 :: "real \<Rightarrow> real \<Rightarrow> real" where
  "js_atan2 b a =
     (if 0 < a then arctan (b / a)
      else if a < 0 \<and> 0 \<le> b then arctan (b / a) + pi
      else if a < 0 then arctan (b / a) - pi
      else if 0 < b then pi / 2
      else if b < 0 then - (pi / 2)
      else 0)"

section \<open>Mirror geometry and vector operations\<close>

definition getMirrorEndpoints :: "mirror \<Rightarrow> point \<times> point" where
  "getMirrorEndpoints mirror =
     (let radians = (m_rotation mirror * pi) / 180;
          halfHeight = m_height mirror / 2;
          start = Point (px (m_position mirror) + sin radians * halfHeight)
                        (py (m_position mirror) - cos radians * halfHeight);
          end' = Point (px (m_position mirror) - sin radians * halfHeight)
                       (py (m_position mirror) + cos radians * halfHeight)
      in (start, end'))"

definition getMirrorNormal :: "mirror \<Rightarrow> point" where
  "getMirrorNormal mirror =
     (let radians = (m_rotation mirror * pi) / 180
      in Point (cos radians) (sin radians))"

definition dotProduct :: "point \<Rightarrow> point \<Rightarrow> real" where
  "dotProduct v1 v2 = px v1 * px v2 + py v1 * py v2"

definition subtractVectors :: "point \<Rightarrow> point \<Rightarrow> point" where
  "subtractVectors v1 v2 = Point (px v1 - px v2) (py v1 - py v2)"

section \<open>Segment intersection\<close>

text \<open>
  \<^verbatim>\<open>lineIntersection\<close>; \<^verbatim>\<open>null\<close> is \<open>None\<close>. The parameters have type
  \<^verbatim>\<open>Point\<close>, so the first guard (a missing point) has no branch here.
\<close>

definition denom_of :: "point \<Rightarrow> point \<Rightarrow> point \<Rightarrow> point \<Rightarrow> real" where
  "denom_of p1 p2 p3 p4 =
     (py p4 - py p3) * (px p2 - px p1) - (px p4 - px p3) * (py p2 - py p1)"

definition ua_of :: "point \<Rightarrow> point \<Rightarrow> point \<Rightarrow> point \<Rightarrow> real" where
  "ua_of p1 p2 p3 p4 =
     ((px p4 - px p3) * (py p1 - py p3) - (py p4 - py p3) * (px p1 - px p3))
       / denom_of p1 p2 p3 p4"

definition ub_of :: "point \<Rightarrow> point \<Rightarrow> point \<Rightarrow> point \<Rightarrow> real" where
  "ub_of p1 p2 p3 p4 =
     ((px p2 - px p1) * (py p1 - py p3) - (py p2 - py p1) * (px p1 - px p3))
       / denom_of p1 p2 p3 p4"

definition lineIntersection :: "point \<Rightarrow> point \<Rightarrow> point \<Rightarrow> point \<Rightarrow> point option" where
  "lineIntersection p1 p2 p3 p4 =
     (let denom = denom_of p1 p2 p3 p4 in
      if \<bar>denom\<bar> < 0.0001 then None
      else
        let ua = ua_of p1 p2 p3 p4;
            ub = ub_of p1 p2 p3 p4
        in if ua < 0 \<or> ua > 1 \<or> ub < 0 \<or> ub > 1 then None
           else Some (Point (px p1 + ua * (px p2 - px p1)) (py p1 + ua * (py p2 - py p1))))"


section \<open>Visibility\<close>

fun isDirectlyVisible :: "point \<Rightarrow> point \<Rightarrow> mirror list \<Rightarrow> bool" where
  "isDirectlyVisible from to [] = True"
| "isDirectlyVisible from to (mirror # mirrors) =
     (case getMirrorEndpoints mirror of (mirrorStart, mirrorEnd) \<Rightarrow>
        if lineIntersection from to mirrorStart mirrorEnd \<noteq> None then False
        else isDirectlyVisible from to mirrors)"

fun isImageVisible :: "ObserverProps list \<Rightarrow> mirror list \<Rightarrow> point \<Rightarrow> mirror \<Rightarrow> bool" where
  "isImageVisible [] mirrors virtualPos mirror = False"
| "isImageVisible (observer # observers) mirrors virtualPos mirror =
     (let mirrorNormal = getMirrorNormal mirror;
          mirrorToObserver = subtractVectors (ob_position observer) (m_position mirror);
          mirrorToVirtual = subtractVectors virtualPos (m_position mirror);
          observerSide = dotProduct mirrorToObserver mirrorNormal;
          virtualSide = dotProduct mirrorToVirtual mirrorNormal
      in if observerSide * virtualSide < 0 then
           (let otherMirrors = filter (\<lambda>m. \<not> same_mirror m mirror) mirrors
            in if isDirectlyVisible (ob_position observer) virtualPos otherMirrors then True
               else isImageVisible observers mirrors virtualPos mirror)
         else isImageVisible observers mirrors virtualPos mirror)"

section \<open>Virtual images\<close>

definition calculateVirtualImagePosition :: "ObjectProps \<Rightarrow> mirror \<Rightarrow> VirtualImage" where
  "calculateVirtualImagePosition object mirror =
     (let normal = getMirrorNormal mirror;
          mirrorToObj = subtractVectors (o_position object) (m_position mirror);
          dist = dotProduct mirrorToObj normal;
          position = Point (px (o_position object) - 2 * dist * px normal)
                           (py (o_position object) - 2 * dist * py normal);
          mirrorAngle = (m_rotation mirror * pi) / 180;
          normalizedMirrorAngle = js_rem (js_rem ((mirrorAngle * 180) / pi) 360 + 360) 360;
          reflectedDirection =
            js_rem (2 * normalizedMirrorAngle - o_direction object + 180) 360
      in \<lparr> v_position = position, v_direction = reflectedDirection,
           v_size = o_size object, v_order = 1, v_sourceMirror = mirror \<rparr>)"

definition areParallel :: "mirror \<Rightarrow> mirror \<Rightarrow> bool" where
  "areParallel mirror1 mirror2 =
     (let epsilon = 0.001;
          normal1 = getMirrorNormal mirror1;
          normal2 = getMirrorNormal mirror2
      in \<bar>px normal1 * px normal2 + py normal1 * py normal2\<bar> > 1 - epsilon)"

section \<open>Images between parallel mirrors\<close>

text \<open>
  The entries of \<^verbatim>\<open>virtualObjects\<close> in \<^verbatim>\<open>calculateParallelMirrorImages\<close>;
  \<open>vo_sourceMirror\<close> is \<^verbatim>\<open>null\<close> for the seed.
\<close>

record vobj =
  vo_position :: point
  vo_direction :: real
  vo_size :: real
  vo_sourceObject :: ObjectProps
  vo_sourceMirror :: "mirror option"
  vo_reflectionOrder :: int

text \<open>
  A key of \<^verbatim>\<open>imageMap\<close> is the string made of the two rounded coordinates and the
  depth, separated by commas; the triple of the three integers stands for it. The map only
  ever stores \<^verbatim>\<open>true\<close>, so it is the list of its keys.
\<close>

type_synonym image_key = "int \<times> int \<times> int"

type_synonym pstate = "image_key list \<times> VirtualImage list \<times> vobj list"

text \<open>The body of the inner \<^verbatim>\<open>mirrors.forEach\<close>, for one seed and one mirror.\<close>

definition reflect_step :: "int \<Rightarrow> vobj \<Rightarrow> mirror \<Rightarrow> pstate \<Rightarrow> pstate" where
  "reflect_step reflection vObj mirror st =
     (case st of (imageMap, results, newVirtualObjects) \<Rightarrow>
      if (case vo_sourceMirror vObj of None \<Rightarrow> False | Some s \<Rightarrow> same_mirror mirror s) then st
      else
        let virtual = calculateVirtualImagePosition
              \<lparr> o_position = vo_position vObj,
                o_size = o_size (vo_sourceObject vObj),
                o_direction = vo_direction vObj \<rparr> mirror;
            key = (js_round (px (v_position virtual)), js_round (py (v_position virtual)),
                   reflection)
        in if key \<in> set imageMap then st
           else (key # imageMap,
                 results @ [virtual \<lparr> v_order := reflection, v_sourceMirror := mirror \<rparr>],
                 newVirtualObjects @
                   [\<lparr> vo_position = v_position virtual,
                      vo_direction = v_direction virtual,
                      vo_size = v_size virtual,
                      vo_sourceObject = vo_sourceObject vObj,
                      vo_sourceMirror = Some mirror,
                      vo_reflectionOrder = reflection \<rparr>]))"

text \<open>One round of the \<^verbatim>\<open>for\<close> loop: both \<^verbatim>\<open>forEach\<close> loops, then the seeds are replaced.\<close>

definition reflection_round ::
  "mirror list \<Rightarrow> int \<Rightarrow> image_key list \<times> VirtualImage list \<times> vobj list
     \<Rightarrow> image_key list \<times> VirtualImage list \<times> vobj list" where
  "reflection_round mirrors reflection st =
     (case st of (imageMap, results, virtualObjects) \<Rightarrow>
        fold (\<lambda>vObj. fold (reflect_step reflection vObj) mirrors) virtualObjects
          (imageMap, results, []))"

definition calculateParallelMirrorImages ::
  "ObjectProps \<Rightarrow> mirror list \<Rightarrow> int \<Rightarrow> VirtualImage list" where
  "calculateParallelMirrorImages object mirrors maxReflections =
     (if length mirrors < 2 then []
      else
        let virtualObjects =
              [\<lparr> vo_position = o_position object, vo_direction = o_direction object,
                 vo_size = o_size object, vo_sourceObject = object,
                 vo_sourceMirror = None, vo_reflectionOrder = 0 \<rparr>];
            final = fold (reflection_round mirrors) [1..maxReflections] ([], [], virtualObjects)
        in case final of (imageMap, results, vs) \<Rightarrow>
             map (\<lambda>result. \<lparr> v_position = v_position result,
                               v_direction = v_direction result,
                               v_size = o_size object,
                               v_order = v_order result,
                               v_sourceMirror = v_sourceMirror result \<rparr>) results)"

section \<open>Groups of parallel mirrors\<close>

text \<open>
  The body of the \<^verbatim>\<open>if (areParallel(...))\<close> in \<^verbatim>\<open>findParallelMirrorGroups\<close> for
  the pair \<open>a = mirrors[i]\<close>, \<open>b = mirrors[j]\<close>: the first group that includes either
  mirror receives the missing ones; when no group does, a new group is pushed.
\<close>

fun merge_pair :: "mirror \<Rightarrow> mirror \<Rightarrow> mirror list list \<Rightarrow> mirror list list" where
  "merge_pair a b [] = [[a, b]]"
| "merge_pair a b (grp # groups) =
     (if group_includes grp a \<or> group_includes grp b then
        (let g1 = (if \<not> group_includes grp a then grp @ [a] else grp);
             g2 = (if \<not> group_includes g1 b then g1 @ [b] else g1)
         in g2 # groups)
      else grp # merge_pair a b groups)"

definition findParallelMirrorGroups :: "mirror list \<Rightarrow> mirror list list" where
  "findParallelMirrorGroups mirrors =
     fold (\<lambda>i groups.
        fold (\<lambda>j groups.
          if areParallel (mirrors ! i) (mirrors ! j)
          then merge_pair (mirrors ! i) (mirrors ! j) groups
          else groups) [i + 1 ..< length mirrors] groups)
       [0 ..< length mirrors] []"

section \<open>Virtual mirrors\<close>

text \<open>
  \<^verbatim>\<open>calculateVirtualMirror\<close> returns a new object; \<open>fresh\<close> is the identity of that
  object.
\<close>

definition calculateVirtualMirror :: "nat \<Rightarrow> mirror \<Rightarrow> mirror \<Rightarrow> mirror" where
  "calculateVirtualMirror fresh sourceMirror reflectingMirror =
     (case getMirrorEndpoints sourceMirror of (start, end') \<Rightarrow>
      let normal = getMirrorNormal reflectingMirror;
          reflectingToStart = subtractVectors start (m_position reflectingMirror);
          distStart = dotProduct reflectingToStart normal;
          virtualStart = Point (px start - 2 * distStart * px normal)
                               (py start - 2 * distStart * py normal);
          reflectingToEnd = subtractVectors end' (m_position reflectingMirror);
          distEnd = dotProduct reflectingToEnd normal;
          virtualEnd = Point (px end' - 2 * distEnd * px normal)
                             (py end' - 2 * distEnd * py normal);
          virtualCenter = Point ((px virtualStart + px virtualEnd) / 2)
                                ((py virtualStart + py virtualEnd) / 2);
          virtualHeight = sqrt ((px virtualEnd - px virtualStart)\<^sup>2
                                + (py virtualEnd - py virtualStart)\<^sup>2);
          dx = px virtualEnd - px virtualStart;
          dy = py virtualEnd - py virtualStart;
          virtualRotation = (js_atan2 dx (- dy) * 180) / pi
      in Mirror fresh virtualCenter (m_width sourceMirror) virtualHeight virtualRotation
           (Some True) (Some 1) (Some reflectingMirror))"

text \<open>The two assignments \<^verbatim>\<open>m.isVirtual = true; m.order = k\<close>.\<close>

definition set_order :: "int \<Rightarrow> mirror \<Rightarrow> mirror" where
  "set_order k m =
     Mirror (m_ident m) (m_position m) (m_width m) (m_height m) (m_rotation m)
       (Some True) (Some k) (m_sourceMirror m)"

text \<open>\<^verbatim>\<open>v.sourceMirror !== m\<close>, where the field may be missing.\<close>

definition source_differs :: "mirror \<Rightarrow> mirror \<Rightarrow> bool" where
  "source_differs v m =
     (case m_sourceMirror v of None \<Rightarrow> True | Some s \<Rightarrow> \<not> same_mirror s m)"

text \<open>
  The loops of \<^verbatim>\<open>calculateVirtualMirrors\<close>. \<open>next\<close> is the first free object
  identity when the function is entered; every object made is pushed on
  \<^verbatim>\<open>virtualMirrors\<close>, so the identity of the next one is \<open>next\<close> plus the length of
  that array. The state of the first loop is the pair of
  \<^verbatim>\<open>firstOrderVirtualMirrors\<close> and \<^verbatim>\<open>virtualMirrors\<close>.
\<close>

definition first_order_step ::
  "nat \<Rightarrow> mirror list \<Rightarrow> nat \<Rightarrow> nat \<Rightarrow> mirror list \<times> mirror list
     \<Rightarrow> mirror list \<times> mirror list" where
  "first_order_step next mirrors i j st =
     (case st of (firstOrderVirtualMirrors, virtualMirrors) \<Rightarrow>
      if i \<noteq> j then
        (let virtualMirror = set_order 1
               (calculateVirtualMirror (next + length virtualMirrors) (mirrors ! i) (mirrors ! j))
         in (firstOrderVirtualMirrors @ [virtualMirror], virtualMirrors @ [virtualMirror]))
      else st)"

definition second_order_step ::
  "nat \<Rightarrow> mirror list \<Rightarrow> mirror list \<Rightarrow> nat \<Rightarrow> nat \<Rightarrow> mirror list \<Rightarrow> mirror list" where
  "second_order_step next mirrors firstOrderVirtualMirrors i j virtualMirrors =
     (if source_differs (firstOrderVirtualMirrors ! i) (mirrors ! j) then
        virtualMirrors @
          [set_order 2
             (calculateVirtualMirror (next + length virtualMirrors)
                (firstOrderVirtualMirrors ! i) (mirrors ! j))]
      else virtualMirrors)"

definition calculateVirtualMirrors :: "nat \<Rightarrow> mirror list \<Rightarrow> mirror list" where
  "calculateVirtualMirrors next mirrors =
     (if length mirrors \<le> 1 then []
      else
        case fold (\<lambda>i. fold (first_order_step next mirrors i) [0 ..< length mirrors])
               [0 ..< length mirrors] ([], [])
        of (firstOrderVirtualMirrors, virtualMirrors) \<Rightarrow>
          fold (\<lambda>i. fold (second_order_step next mirrors firstOrderVirtualMirrors i)
                        [0 ..< length mirrors])
            [0 ..< length firstOrderVirtualMirrors] virtualMirrors)"

section \<open>Reconstruction of the ray path\<close>

text \<open>
  The drawing functions only call \<^verbatim>\<open>drawPath\<close> on the canvas; the model returns the
  list of the segments drawn, in order.
\<close>

record segment =
  s_start :: point
  s_end :: point
  s_dashed :: bool
  s_color :: string

text \<open>
  \<^verbatim>\<open>colors[(order - 1) % colors.length]\<close>: the remainder has the sign of
  \<open>order - 1\<close>, and a negative index reads \<^verbatim>\<open>undefined\<close>.
\<close>

definition getColorForOrder :: "int \<Rightarrow> string option" where
  "getColorForOrder order =
     (let colors = [''rgb(255, 0, 0)'', ''rgb(220, 50, 220)'', ''rgb(50, 220, 220)'',
                    ''rgb(50, 50, 220)''];
          idx = (if 0 \<le> order - 1 then (order - 1) mod 4 else - ((- (order - 1)) mod 4))
      in if 0 \<le> idx then Some (colors ! nat idx) else None)"

text \<open>\<^verbatim>\<open>drawPath\<close>; the colour parameter defaults when it is \<^verbatim>\<open>undefined\<close>.\<close>

definition drawPath :: "point \<Rightarrow> point \<Rightarrow> bool \<Rightarrow> string option \<Rightarrow> segment" where
  "drawPath start end' dashed color =
     \<lparr> s_start = start, s_end = end', s_dashed = dashed,
       s_color = (case color of None \<Rightarrow> ''#ff00ff'' | Some c \<Rightarrow> c) \<rparr>"

text \<open>
  \<^verbatim>\<open>parallelImage?.find(...)\<close>: the first image of the order before the current one
  whose source mirror is another object than the current image's.
\<close>

definition find_prev :: "VirtualImage list option \<Rightarrow> VirtualImage \<Rightarrow> VirtualImage option" where
  "find_prev parallelImage currentImage =
     (case parallelImage of
        None \<Rightarrow> None
      | Some imgs \<Rightarrow>
          find (\<lambda>img. v_order img = v_order currentImage - 1
                     \<and> \<not> same_mirror (v_sourceMirror img) (v_sourceMirror currentImage)) imgs)"

text \<open>
  The \<^verbatim>\<open>while (currentImage.order > 1)\<close> loop of \<^verbatim>\<open>drawLightRay\<close>; \<open>path\<close> is
  what has been drawn so far. Each \<^verbatim>\<open>break\<close> returns it. Nothing in the body of the
  \<^verbatim>\<open>try\<close> can throw here, so the \<^verbatim>\<open>catch\<close> (which breaks too) has no branch.
\<close>

function trace_back ::
  "VirtualImage list option \<Rightarrow> ObjectProps \<Rightarrow> string option \<Rightarrow> point \<Rightarrow> VirtualImage
     \<Rightarrow> segment list \<Rightarrow> segment list" where
  "trace_back parallelImage object color currentIntersection currentImage path =
     (if v_order currentImage > 1 then
        (case find_prev parallelImage currentImage of
           None \<Rightarrow> path
         | Some prevImage \<Rightarrow>
             (case getMirrorEndpoints (v_sourceMirror prevImage) of (e0, e1) \<Rightarrow>
                (case lineIntersection currentIntersection (v_position prevImage) e0 e1 of
                   None \<Rightarrow> path
                 | Some prevIntersection \<Rightarrow>
                     trace_back parallelImage object color prevIntersection prevImage
                       (path @ [drawPath prevIntersection currentIntersection False color]
                          @ (if v_order prevImage = 1
                             then [drawPath (o_position object) prevIntersection False color]
                             else [])))))
      else path)"
  by pat_completeness auto
termination
proof (relation "measure (\<lambda>(pI, ob, c, ci, img, p). nat (v_order img))")
  show "wf (measure (\<lambda>(pI, ob, c, ci, img, p). nat (v_order img)))" by simp
next
  fix parallelImage :: "VirtualImage list option" and object :: ObjectProps
    and color :: "string option" and currentIntersection :: point
    and currentImage prevImage :: VirtualImage and path :: "segment list"
    and xa :: "point \<times> point" and e0 e1 prevIntersection :: point
  assume gt: "1 < v_order currentImage"
    and fp: "find_prev parallelImage currentImage = Some prevImage"
  from fp have "v_order prevImage = v_order currentImage - 1"
    by (auto simp: find_prev_def find_Some_iff split: option.splits)
  with gt show "((parallelImage, object, color, prevIntersection, prevImage,
                  path @ [drawPath prevIntersection currentIntersection False color]
                    @ (if v_order prevImage = 1
                       then [drawPath (o_position object) prevIntersection False color]
                       else [])),
                 (parallelImage, object, color, currentIntersection, currentImage, path))
                \<in> measure (\<lambda>(pI, ob, c, ci, img, p). nat (v_order img))"
    by simp
qed

definition drawLightRay ::
  "VirtualImage \<Rightarrow> ObjectProps \<Rightarrow> ObserverProps \<Rightarrow> mirror \<Rightarrow> VirtualImage list option
     \<Rightarrow> segment list" where
  "drawLightRay virtualImage object observer mirror parallelImage =
     (case getMirrorEndpoints mirror of (m0, m1) \<Rightarrow>
      (case lineIntersection (v_position virtualImage) (ob_position observer) m0 m1 of
        None \<Rightarrow> []
      | Some mirrorIntersection \<Rightarrow>
          (let virtualImageColor = getColorForOrder (v_order virtualImage);
               path = [drawPath mirrorIntersection (ob_position observer) False virtualImageColor,
                       drawPath mirrorIntersection (v_position virtualImage) True
                         virtualImageColor]
           in if v_order virtualImage = 1 then
                path @ [drawPath (o_position object) mirrorIntersection False virtualImageColor]
              else
                trace_back parallelImage object virtualImageColor mirrorIntersection
                  virtualImage path)))"

section \<open>Binary64 arithmetic for the position of a virtual image\<close>

text \<open>
  The equality of a position with its double reflection depends on the rounding of the
  program's numbers, so for it the numbers are binary64 numbers: the reals that \<open>fl\<close>
  leaves unchanged. Results beyond the largest binary64 number (overflow to infinity) are
  not modelled; the statements keep coordinates and rotation below \<open>2\<^sup>1\<^sup>0\<^sup>0\<^sup>0\<close>.
\<close>

text \<open>Rounding of a real to the nearest integer, a tie going to the even one.\<close>

definition rne :: "real \<Rightarrow> int" where
  "rne r =
     (let f = \<lfloor>r\<rfloor> in
      if r - of_int f < 1 / 2 then f
      else if 1 / 2 < r - of_int f then f + 1
      else if even f then f else f + 1)"

text \<open>The power of two with an integer exponent.\<close>

definition pow2 :: "int \<Rightarrow> real" where
  "pow2 e = (if 0 \<le> e then 2 ^ nat e else 1 / 2 ^ nat (- e))"

text \<open>
  The exponent of the binade of \<open>x\<close>; below \<open>2\<^sup>-\<^sup>1\<^sup>0\<^sup>2\<^sup>2\<close> the numbers are subnormal and
  keep the exponent \<open>- 1022\<close>.
\<close>

definition expo :: "real \<Rightarrow> int" where
  "expo x = max \<lfloor>log 2 \<bar>x\<bar>\<rfloor> (- 1022)"

text \<open>
  The binary64 number nearest to a real, ties to even: a multiple of \<open>2\<close> to the
  exponent less 52. Every operation \<^verbatim>\<open>+\<close>, \<^verbatim>\<open>-\<close>, \<^verbatim>\<open>*\<close>, \<^verbatim>\<open>/\<close> of the program on
  numbers is the exact operation followed by this rounding.
\<close>

definition fl :: "real \<Rightarrow> real" where
  "fl x = (if x = 0 then 0
           else pow2 (expo x - 52) * of_int (rne (x / pow2 (expo x - 52))))"

text \<open>Half the distance between two subnormal numbers.\<close>

definition eta :: real where
  "eta = 1 / 2 ^ 1075"

text \<open>\<^verbatim>\<open>Math.PI\<close>, the binary64 number nearest to \<open>\<pi>\<close>.\<close>

definition js_PI :: real where
  "js_PI = 884279719003555 / 2 ^ 48"

text \<open>
  \<^verbatim>\<open>getMirrorNormal\<close>, \<^verbatim>\<open>subtractVectors\<close>, \<^verbatim>\<open>dotProduct\<close> and the field
  \<^verbatim>\<open>position\<close> of \<^verbatim>\<open>calculateVirtualImagePosition\<close> in binary64 arithmetic, operation
  by operation in the order of the source. \<^verbatim>\<open>Math.cos\<close> and \<^verbatim>\<open>Math.sin\<close> are library
  functions whose results the language leaves to the implementation (but for arguments
  such as 0): they are the parameters \<open>mcos\<close> and \<open>msin\<close>.
\<close>

definition getMirrorNormal_fl :: "(real \<Rightarrow> real) \<Rightarrow> (real \<Rightarrow> real) \<Rightarrow> mirror \<Rightarrow> point" where
  "getMirrorNormal_fl mcos msin mirror =
     (let radians = fl (fl (m_rotation mirror * js_PI) / 180)
      in Point (mcos radians) (msin radians))"

definition dotProduct_fl :: "point \<Rightarrow> point \<Rightarrow> real" where
  "dotProduct_fl v1 v2 = fl (fl (px v1 * px v2) + fl (py v1 * py v2))"

definition subtractVectors_fl :: "point \<Rightarrow> point \<Rightarrow> point" where
  "subtractVectors_fl v1 v2 = Point (fl (px v1 - px v2)) (fl (py v1 - py v2))"

definition virtualImagePosition_fl ::
  "(real \<Rightarrow> real) \<Rightarrow> (real \<Rightarrow> real) \<Rightarrow> point \<Rightarrow> mirror \<Rightarrow> point" where
  "virtualImagePosition_fl mcos msin position mirror =
     (let normal = getMirrorNormal_fl mcos msin mirror;
          mirrorToObj = subtractVectors_fl position (m_position mirror);
          dist = dotProduct_fl mirrorToObj normal
      in Point (fl (px position - fl (fl (2 * dist) * px normal)))
               (fl (py position - fl (fl (2 * dist) * py normal))))"

section \<open>Notions used to state the properties\<close>

text \<open>
  The object that \<^verbatim>\<open>calculateParallelMirrorImages\<close> passes to
  \<^verbatim>\<open>calculateVirtualImagePosition\<close> for a seed made from the image \<open>i\<close> of the
  object \<open>ob\<close>: the source object with the position and direction of the image.
\<close>

definition as_object :: "ObjectProps \<Rightarrow> VirtualImage \<Rightarrow> ObjectProps" where
  "as_object ob i =
     \<lparr> o_position = v_position i, o_size = o_size ob, o_direction = v_direction i \<rparr>"

text \<open>
  The body of the inner loop of \<^verbatim>\<open>findParallelMirrorGroups\<close> for the indices
  \<open>i\<close> and \<open>j\<close>.
\<close>

definition pair_step :: "mirror list \<Rightarrow> nat \<Rightarrow> nat \<Rightarrow> mirror list list \<Rightarrow> mirror list list" where
  "pair_step ms i j gs =
     (if areParallel (ms ! i) (ms ! j) then merge_pair (ms ! i) (ms ! j) gs else gs)"

text \<open>
  \<open>parallel_transitive\<close>: on the mirrors of the list, being parallel within the tolerance
  is transitive. The other predicates are the invariants of the two loops of
  \<^verbatim>\<open>findParallelMirrorGroups\<close>: two mirrors are together when one group holds both;
  the groups are well formed when each holds mirrors of the list that are parallel two by
  two and no mirror of one group is parallel to a mirror of another; every member of a
  group is parallel to a mirror whose index the outer loop has reached; every parallel
  pair with an index below \<open>i\<close> is together.
\<close>

definition together :: "mirror list list \<Rightarrow> mirror \<Rightarrow> mirror \<Rightarrow> bool" where
  "together gs x y = (\<exists>g \<in> set gs. x \<in> set g \<and> y \<in> set g)"

definition groups_ok :: "mirror list \<Rightarrow> mirror list list \<Rightarrow> bool" where
  "groups_ok ms gs =
     ((\<forall>g \<in> set gs. set g \<subseteq> set ms \<and> (\<forall>x \<in> set g. \<forall>y \<in> set g. areParallel x y))
      \<and> (\<forall>p < length gs. \<forall>q < length gs. p \<noteq> q \<longrightarrow>
            (\<forall>x \<in> set (gs ! p). \<forall>y \<in> set (gs ! q). \<not> areParallel x y)))"

definition origin_inv :: "mirror list \<Rightarrow> nat \<Rightarrow> mirror list list \<Rightarrow> bool" where
  "origin_inv ms i gs =
     (\<forall>g \<in> set gs. \<forall>y \<in> set g. \<exists>k < length ms. areParallel (ms ! k) y
         \<and> (k < i \<or> (k = i \<and> together gs (ms ! i) (ms ! i))))"

definition cover_inv :: "mirror list \<Rightarrow> nat \<Rightarrow> mirror list list \<Rightarrow> bool" where
  "cover_inv ms i gs =
     (\<forall>k < i. \<forall>l < length ms. k < length ms \<and> k \<noteq> l \<and> areParallel (ms ! k) (ms ! l)
         \<longrightarrow> together gs (ms ! k) (ms ! l))"

definition parallel_transitive :: "mirror list \<Rightarrow> bool" where
  "parallel_transitive ms =
     (\<forall>a \<in> set ms. \<forall>b \<in> set ms. \<forall>c \<in> set ms.
        areParallel a b \<longrightarrow> areParallel b c \<longrightarrow> areParallel a c)"

section \<open>Segment intersection: the result of \<open>lineIntersection\<close>\<close>







section \<open>Reflection of a position\<close>

lemma normal_unit: "(px (getMirrorNormal m))\<^sup>2 + (py (getMirrorNormal m))\<^sup>2 = 1"
  by (simp add: getMirrorNormal_def Let_def)

lemma reflect_twice:
  fixes a b u v s t :: real
  assumes "a\<^sup>2 + b\<^sup>2 = 1"
  shows "(u - 2 * ((u - s) * a + (v - t) * b) * a)
          - 2 * (((u - 2 * ((u - s) * a + (v - t) * b) * a) - s) * a
                 + ((v - 2 * ((u - s) * a + (v - t) * b) * b) - t) * b) * a = u"
proof -
  have "(u - 2 * ((u - s) * a + (v - t) * b) * a)
          - 2 * (((u - 2 * ((u - s) * a + (v - t) * b) * a) - s) * a
                 + ((v - 2 * ((u - s) * a + (v - t) * b) * b) - t) * b) * a
        = u + 4 * ((u - s) * a + (v - t) * b) * a * (a\<^sup>2 + b\<^sup>2 - 1)"
    by (simp add: power2_eq_square algebra_simps)
  with assms show ?thesis by simp
qed

lemma v_position_eq:
  "v_position (calculateVirtualImagePosition object mirror) =
     Point (px (o_position object)
              - 2 * dotProduct (subtractVectors (o_position object) (m_position mirror))
                      (getMirrorNormal mirror) * px (getMirrorNormal mirror))
           (py (o_position object)
              - 2 * dotProduct (subtractVectors (o_position object) (m_position mirror))
                      (getMirrorNormal mirror) * py (getMirrorNormal mirror))"
  by (simp add: calculateVirtualImagePosition_def Let_def)

text \<open>
  In exact arithmetic, where the normal is a unit vector and no operation rounds, the
  reflection of a position is an involution. This is a property of the formula only: the
  doubles of the program round, and its result differs from the original position in the
  last digits.
\<close>

lemma exact_reflection_involution:
  "v_position (calculateVirtualImagePosition
     \<lparr> o_position = v_position (calculateVirtualImagePosition object mirror),
       o_size = v_size (calculateVirtualImagePosition object mirror),
       o_direction = v_direction (calculateVirtualImagePosition object mirror) \<rparr> mirror)
   = o_position object"
proof -
  obtain a b where n: "getMirrorNormal mirror = Point a b"
    by (cases "getMirrorNormal mirror")
  with normal_unit[of mirror] have u: "a\<^sup>2 + b\<^sup>2 = 1" by simp
  then have u': "b\<^sup>2 + a\<^sup>2 = 1" by simp
  obtain s t where c: "m_position mirror = Point s t" by (cases "m_position mirror")
  obtain x y where p: "o_position object = Point x y" by (cases "o_position object")
  show ?thesis
    using reflect_twice[OF u, of x s y t] reflect_twice[OF u', of y t x s]
    by (simp add: v_position_eq n c p dotProduct_def subtractVectors_def add.commute)
qed

subsection \<open>The position in binary64 arithmetic\<close>

lemma pow2_powr: "pow2 e = 2 powr (of_int e)"
  by (simp add: pow2_def powr_int)

lemma pow2_pos: "0 < pow2 e"
  by (simp add: pow2_powr)

lemma pow2_add: "pow2 (a + b) = pow2 a * pow2 b"
  by (simp add: pow2_powr powr_add)

lemma rne_error: "\<bar>of_int (rne r) - r\<bar> \<le> 1 / 2"
  unfolding rne_def Let_def by (auto; linarith)

lemma eta_pos: "0 < eta"
  by (simp add: eta_def)

lemma eta_pow2: "eta = pow2 (- 1075)"
  by (simp add: eta_def pow2_def)

lemma fl_error: "\<bar>fl x - x\<bar> \<le> \<bar>x\<bar> / 2 ^ 53 + eta"
proof (cases "x = 0")
  case True
  then show ?thesis using eta_pos by (simp add: fl_def)
next
  case False
  let ?e = "expo x"
  let ?q = "pow2 (?e - 52)"
  have q: "0 < ?q" by (rule pow2_pos)
  have "fl x - x = ?q * (of_int (rne (x / ?q)) - x / ?q)"
    using False q by (simp add: fl_def algebra_simps)
  then have "\<bar>fl x - x\<bar> = ?q * \<bar>of_int (rne (x / ?q)) - x / ?q\<bar>"
    using q by (simp add: abs_mult)
  also have "\<dots> \<le> ?q * (1 / 2)"
    using q rne_error[of "x / ?q"] by (intro mult_left_mono) simp_all
  also have "\<dots> = pow2 (?e - 53)"
    using pow2_add[of "?e - 53" 1] by (simp add: pow2_def)
  finally have b: "\<bar>fl x - x\<bar> \<le> pow2 (?e - 53)" .
  show ?thesis
  proof (cases "- 1022 \<le> \<lfloor>log 2 \<bar>x\<bar>\<rfloor>")
    case True
    then have e: "?e = \<lfloor>log 2 \<bar>x\<bar>\<rfloor>" by (simp add: expo_def)
    have "2 powr (of_int ?e) \<le> \<bar>x\<bar>"
      using floor_log_eq_powr_iff[of "\<bar>x\<bar>" 2 ?e] False e by simp
    then have "pow2 ?e \<le> \<bar>x\<bar>" by (simp add: pow2_powr)
    moreover have "pow2 (?e - 53) = pow2 ?e / 2 ^ 53"
      using pow2_add[of ?e "- 53"] by (simp add: pow2_def)
    ultimately have "pow2 (?e - 53) \<le> \<bar>x\<bar> / 2 ^ 53"
      by (simp add: divide_right_mono)
    with b eta_pos show ?thesis by linarith
  next
    case False
    then have "?e = - 1022" by (simp add: expo_def)
    then have "pow2 (?e - 53) = eta" by (simp add: eta_pow2)
    with b show ?thesis by simp
  qed
qed

lemma fl_eval:
  assumes "pow2 e \<le> \<bar>x\<bar>" and "\<bar>x\<bar> < pow2 (e + 1)" and "- 1022 \<le> e"
  shows "fl x = pow2 (e - 52) * of_int (rne (x / pow2 (e - 52)))"
proof -
  have x: "x \<noteq> 0" using assms(1) pow2_pos[of e] by auto
  have "\<lfloor>log 2 \<bar>x\<bar>\<rfloor> = e"
    using floor_log_eq_powr_iff[of "\<bar>x\<bar>" 2 e] x assms(1,2) by (simp add: pow2_powr)
  then have "expo x = e" using assms(3) by (simp add: expo_def)
  then show ?thesis using x by (simp add: fl_def)
qed

lemma fl_zero: "fl 0 = 0" by (simp add: fl_def)


lemma rne_of_int: "rne (of_int k) = k"
  by (simp add: rne_def)

lemma fl_fix:
  assumes "pow2 e \<le> \<bar>x\<bar>" and "\<bar>x\<bar> < pow2 (e + 1)" and "- 1022 \<le> e"
    and "x = pow2 (e - 52) * of_int k"
  shows "fl x = x"
proof -
  have "x / pow2 (e - 52) = of_int k"
    using assms(4) pow2_pos[of "e - 52"] by simp
  then show ?thesis
    using fl_eval[OF assms(1,2,3)] assms(4) by (simp add: rne_of_int)
qed

lemma normal_rot0:
  "getMirrorNormal_fl cos sin (Mirror 0 (Point 1 0) 6 400 0 None None None) = Point 1 0"
  by (simp add: getMirrorNormal_fl_def fl_zero)

lemma fl_a: "fl (3602879701896397 / 2 ^ 55 - 1) = - (8106479329266893 / 2 ^ 53)"
  by (subst fl_eval[of "- 1"]) (simp_all add: pow2_def rne_def)

lemma fl_a_fix: "fl (- (8106479329266893 / 2 ^ 53)) = - (8106479329266893 / 2 ^ 53)"
  by (rule fl_fix[of "- 1" _ "- 8106479329266893"]) (simp_all add: pow2_def)

lemma fl_2a: "fl (2 * - (8106479329266893 / 2 ^ 53)) = - (8106479329266893 / 2 ^ 52)"
  by (subst fl_fix[of 0 _ "- 8106479329266893"]) (simp_all add: pow2_def)

lemma fl_2a_fix: "fl (- (8106479329266893 / 2 ^ 52)) = - (8106479329266893 / 2 ^ 52)"
  by (rule fl_fix[of 0 _ "- 8106479329266893"]) (simp_all add: pow2_def)

lemma fl_x1: "fl (3602879701896397 / 2 ^ 55 - - (8106479329266893 / 2 ^ 52))
                = 8556839292003943 / 2 ^ 52"
  by (subst fl_eval[of 0]) (simp_all add: pow2_def rne_def)

lemma first_image:
  "virtualImagePosition_fl cos sin (Point (3602879701896397 / 2 ^ 55) 0)
     (Mirror 0 (Point 1 0) 6 400 0 None None None)
   = Point (8556839292003943 / 2 ^ 52) 0"
  by (simp only: virtualImagePosition_fl_def normal_rot0 Let_def subtractVectors_fl_def
        dotProduct_fl_def point.sel mirror.sel fl_a diff_self fl_zero mult_1_right
        mult_zero_right mult_zero_left add_0_right fl_a_fix fl_2a fl_2a_fix fl_x1 diff_0_right)


lemma fl_b: "fl (8556839292003943 / 2 ^ 52 - 1) = 4053239664633447 / 2 ^ 52"
  by (subst fl_eval[of "- 1"]) (simp_all add: pow2_def rne_def)

lemma fl_b_fix: "fl (4053239664633447 / 2 ^ 52) = 4053239664633447 / 2 ^ 52"
  by (rule fl_fix[of "- 1" _ 8106479329266894]) (simp_all add: pow2_def)

lemma fl_2b: "fl (2 * (4053239664633447 / 2 ^ 52)) = 4053239664633447 / 2 ^ 51"
  by (subst fl_fix[of 0 _ 8106479329266894]) (simp_all add: pow2_def)

lemma fl_2b_fix: "fl (4053239664633447 / 2 ^ 51) = 4053239664633447 / 2 ^ 51"
  by (rule fl_fix[of 0 _ 8106479329266894]) (simp_all add: pow2_def)

lemma fl_x2: "fl (8556839292003943 / 2 ^ 52 - 4053239664633447 / 2 ^ 51)
                = 450359962737049 / 2 ^ 52"
  by (subst fl_eval[of "- 4"]) (simp_all add: pow2_def rne_def)

lemma second_image:
  "virtualImagePosition_fl cos sin (Point (8556839292003943 / 2 ^ 52) 0)
     (Mirror 0 (Point 1 0) 6 400 0 None None None)
   = Point (450359962737049 / 2 ^ 52) 0"
  by (simp only: virtualImagePosition_fl_def normal_rot0 Let_def subtractVectors_fl_def
        dotProduct_fl_def point.sel mirror.sel fl_b diff_self fl_zero mult_1_right
        mult_zero_right mult_zero_left add_0_right fl_b_fix fl_2b fl_2b_fix fl_x2 diff_0_right)

text \<open>
  Claim C4 says that reflecting a position across a mirror, and the result across the
  same mirror again, returns the original position. In the arithmetic of the program this
  fails: for the object at \<open>(0.1, 0)\<close> (the binary64 number nearest to 0.1) and the mirror
  at \<open>(1, 0)\<close> of rotation 0, whose normal is exactly \<open>(1, 0)\<close>, the first reflection gives
  \<open>1.9000000000000001\<close> and the second \<open>0.09999999999999987\<close>.
\<close>

theorem double_reflection_rounding_counterexample:
  "virtualImagePosition_fl cos sin
     (virtualImagePosition_fl cos sin (Point (3602879701896397 / 2 ^ 55) 0)
        (Mirror 0 (Point 1 0) 6 400 0 None None None))
     (Mirror 0 (Point 1 0) 6 400 0 None None None)
   = Point (450359962737049 / 2 ^ 52) 0
   \<and> virtualImagePosition_fl cos sin
     (virtualImagePosition_fl cos sin (Point (3602879701896397 / 2 ^ 55) 0)
        (Mirror 0 (Point 1 0) 6 400 0 None None None))
     (Mirror 0 (Point 1 0) 6 400 0 None None None)
   \<noteq> Point (3602879701896397 / 2 ^ 55) 0"
  unfolding first_image second_image by simp

lemma fl_step:
  assumes "\<bar>v - w\<bar> \<le> E" and "\<bar>v\<bar> \<le> V"
  shows "\<bar>fl v - w\<bar> \<le> E + V / 9007199254740992 + eta"
proof -
  have "\<bar>fl v - v\<bar> \<le> \<bar>v\<bar> / 9007199254740992 + eta" using fl_error[of v] by simp
  moreover have "\<bar>v\<bar> / 9007199254740992 \<le> V / 9007199254740992"
    using assms(2) by (simp add: divide_right_mono)
  ultimately show ?thesis using assms(1) by linarith
qed

lemma mul_unit:
  fixes v w c :: real
  assumes "\<bar>c\<bar> \<le> 1"
  shows "\<bar>v * c\<bar> \<le> \<bar>v\<bar>" and "\<bar>v * c - w * c\<bar> \<le> \<bar>v - w\<bar>"
proof -
  show "\<bar>v * c\<bar> \<le> \<bar>v\<bar>"
    using assms mult_left_mono[of "\<bar>c\<bar>" 1 "\<bar>v\<bar>"] by (simp add: abs_mult)
  have "\<bar>v * c - w * c\<bar> = \<bar>v - w\<bar> * \<bar>c\<bar>"
    by (simp add: abs_mult flip: left_diff_distrib)
  also have "\<dots> \<le> \<bar>v - w\<bar>"
    using assms mult_left_mono[of "\<bar>c\<bar>" 1 "\<bar>v - w\<bar>"] by simp
  finally show "\<bar>v * c - w * c\<bar> \<le> \<bar>v - w\<bar>" .
qed

lemma dbl:
  fixes p q E :: real
  shows "\<bar>p - q\<bar> \<le> E \<Longrightarrow> \<bar>2 * p - 2 * q\<bar> \<le> 2 * E"
  by linarith

lemma reflect_coord_error:
  fixes x y mx my a b c z N :: real
  assumes x: "\<bar>x\<bar> \<le> N" and y: "\<bar>y\<bar> \<le> N" and mx: "\<bar>mx\<bar> \<le> N" and my: "\<bar>my\<bar> \<le> N"
    and z: "\<bar>z\<bar> \<le> N" and a: "\<bar>a\<bar> \<le> 1" and b: "\<bar>b\<bar> \<le> 1" and c: "\<bar>c\<bar> \<le> 1"
  shows "\<bar>fl (z - fl (fl (2 * fl (fl (fl (x - mx) * a) + fl (fl (y - my) * b))) * c))
          - (z - 2 * ((x - mx) * a + (y - my) * b) * c)\<bar>
         \<le> 61 * N / 9007199254740992 + 22 * eta"
proof -
  note ep = eta_pos
  have N: "0 \<le> N" using x by linarith
  define t1 where "t1 = fl (x - mx)"
  define t2 where "t2 = fl (y - my)"
  define A1 where "A1 = (x - mx) * a"
  define A2 where "A2 = (y - my) * b"
  define q1 where "q1 = fl (t1 * a)"
  define q2 where "q2 = fl (t2 * b)"
  define d where "d = fl (q1 + q2)"
  define w where "w = fl (2 * d)"
  define H where "H = 2 * (A1 + A2)"
  define G where "G = H * c"
  define r where "r = fl (w * c)"
  have t1: "\<bar>t1 - (x - mx)\<bar> \<le> 2 * N / 9007199254740992 + eta"
    unfolding t1_def using fl_step[of "x - mx" "x - mx" 0 "2 * N"] x mx by simp
  have t2: "\<bar>t2 - (y - my)\<bar> \<le> 2 * N / 9007199254740992 + eta"
    unfolding t2_def using fl_step[of "y - my" "y - my" 0 "2 * N"] y my by simp
  have t1m: "\<bar>t1\<bar> \<le> 3 * N + eta" using t1 x mx N ep by linarith
  have t2m: "\<bar>t2\<bar> \<le> 3 * N + eta" using t2 y my N ep by linarith
  have q1a: "\<bar>t1 * a - A1\<bar> \<le> 2 * N / 9007199254740992 + eta"
    unfolding A1_def using mul_unit(2)[OF a, of t1 "x - mx"] t1 by linarith
  have q1b: "\<bar>t1 * a\<bar> \<le> 3 * N + eta"
    using mul_unit(1)[OF a, of t1] t1m by linarith
  have q1: "\<bar>q1 - A1\<bar> \<le> 5 * N / 9007199254740992 + 3 * eta"
    unfolding q1_def using fl_step[OF q1a q1b] N ep by (simp only: add_divide_distrib)
  have q2a: "\<bar>t2 * b - A2\<bar> \<le> 2 * N / 9007199254740992 + eta"
    unfolding A2_def using mul_unit(2)[OF b, of t2 "y - my"] t2 by linarith
  have q2b: "\<bar>t2 * b\<bar> \<le> 3 * N + eta"
    using mul_unit(1)[OF b, of t2] t2m by linarith
  have q2: "\<bar>q2 - A2\<bar> \<le> 5 * N / 9007199254740992 + 3 * eta"
    unfolding q2_def using fl_step[OF q2a q2b] N ep by (simp only: add_divide_distrib)
  have e1: "\<bar>A1\<bar> \<le> 2 * N"
    unfolding A1_def using mul_unit(1)[OF a, of "x - mx"] x mx by linarith
  have e2: "\<bar>A2\<bar> \<le> 2 * N"
    unfolding A2_def using mul_unit(1)[OF b, of "y - my"] y my by linarith
  have s: "\<bar>(q1 + q2) - (A1 + A2)\<bar> \<le> 10 * N / 9007199254740992 + 6 * eta"
    using q1 q2 by linarith
  have sm: "\<bar>q1 + q2\<bar> \<le> 6 * N + 6 * eta" using q1 q2 e1 e2 N ep by linarith
  have d: "\<bar>d - (A1 + A2)\<bar> \<le> 16 * N / 9007199254740992 + 8 * eta"
    unfolding d_def using fl_step[OF s sm] N ep by (simp only: add_divide_distrib)
  have dm: "\<bar>d\<bar> \<le> 5 * N + 8 * eta" using d e1 e2 N ep by linarith
  have w0: "\<bar>2 * d - H\<bar> \<le> 32 * N / 9007199254740992 + 16 * eta"
    unfolding H_def using dbl[OF d] by simp
  have w0m: "\<bar>2 * d\<bar> \<le> 10 * N + 16 * eta" using dm by simp
  have w: "\<bar>w - H\<bar> \<le> 42 * N / 9007199254740992 + 18 * eta"
    unfolding w_def using fl_step[OF w0 w0m] N ep by (simp only: add_divide_distrib)
  have "H = 2 * A1 + 2 * A2" by (simp add: H_def)
  then have Hm: "\<bar>H\<bar> \<le> 8 * N" using e1 e2 by linarith
  have wm: "\<bar>w\<bar> \<le> 9 * N + 18 * eta" using w Hm N ep by linarith
  have r0: "\<bar>w * c - G\<bar> \<le> 42 * N / 9007199254740992 + 18 * eta"
    unfolding G_def using mul_unit(2)[OF c, of w H] w by linarith
  have r0m: "\<bar>w * c\<bar> \<le> 9 * N + 18 * eta"
    using mul_unit(1)[OF c, of w] wm by linarith
  have r: "\<bar>r - G\<bar> \<le> 51 * N / 9007199254740992 + 20 * eta"
    unfolding r_def using fl_step[OF r0 r0m] N ep by (simp only: add_divide_distrib)
  have Gm: "\<bar>G\<bar> \<le> 8 * N"
    unfolding G_def using mul_unit(1)[OF c, of H] Hm by linarith
  have rm: "\<bar>r\<bar> \<le> 9 * N + 20 * eta" using r Gm N ep by linarith
  have f0: "\<bar>(z - r) - (z - G)\<bar> \<le> 51 * N / 9007199254740992 + 20 * eta"
    using r by linarith
  have f0m: "\<bar>z - r\<bar> \<le> 10 * N + 20 * eta" using rm z by linarith
  have "\<bar>fl (z - r) - (z - G)\<bar> \<le> 61 * N / 9007199254740992 + 22 * eta"
    using fl_step[OF f0 f0m] N ep by (simp only: add_divide_distrib)
  then show ?thesis
    unfolding r_def w_def d_def q1_def q2_def t1_def t2_def G_def H_def A1_def A2_def .
qed


lemma refl_lipschitz:
  fixes x y x' y' z z' mx my a b c E :: real
  assumes x: "\<bar>x' - x\<bar> \<le> E" and y: "\<bar>y' - y\<bar> \<le> E" and z: "\<bar>z' - z\<bar> \<le> E"
    and a: "\<bar>a\<bar> \<le> 1" and b: "\<bar>b\<bar> \<le> 1" and c: "\<bar>c\<bar> \<le> 1"
  shows "\<bar>(z' - 2 * ((x' - mx) * a + (y' - my) * b) * c)
          - (z - 2 * ((x - mx) * a + (y - my) * b) * c)\<bar> \<le> 5 * E"
proof -
  define P where "P = (x' - mx) * a - (x - mx) * a"
  define Q where "Q = (y' - my) * b - (y - my) * b"
  define K where "K = (P + Q) * c"
  have P: "\<bar>P\<bar> \<le> E"
    unfolding P_def using mul_unit(2)[OF a, of "x' - mx" "x - mx"] x by simp
  have Q: "\<bar>Q\<bar> \<le> E"
    unfolding Q_def using mul_unit(2)[OF b, of "y' - my" "y - my"] y by simp
  have K: "\<bar>K\<bar> \<le> 2 * E"
    unfolding K_def using mul_unit(1)[OF c, of "P + Q"] P Q by linarith
  have "(z' - 2 * ((x' - mx) * a + (y' - my) * b) * c)
          - (z - 2 * ((x - mx) * a + (y - my) * b) * c) = (z' - z) - (K + K)"
    unfolding K_def P_def Q_def by (simp add: algebra_simps)
  then show ?thesis using K z by linarith
qed

lemma refl_defect:
  fixes x y mx my a b c D :: real
  assumes D: "D = (x - mx) * a + (y - my) * b"
  shows "(x - 2 * D * a) - 2 * (((x - 2 * D * a) - mx) * a + ((y - 2 * D * b) - my) * b) * a - x
           = 4 * D * a * (a\<^sup>2 + b\<^sup>2 - 1)"
    and "(y - 2 * D * b) - 2 * (((x - 2 * D * a) - mx) * a + ((y - 2 * D * b) - my) * b) * b - y
           = 4 * D * b * (a\<^sup>2 + b\<^sup>2 - 1)"
  unfolding D by (simp_all add: power2_eq_square algebra_simps)

lemma defect_bound:
  fixes D c k N :: real
  assumes D: "\<bar>D\<bar> \<le> 4 * N" and c: "\<bar>c\<bar> \<le> 1" and k: "\<bar>k\<bar> \<le> 1 / 2 ^ 50"
  shows "\<bar>4 * D * c * k\<bar> \<le> 128 * N / 9007199254740992"
proof -
  have N: "0 \<le> N" using D by linarith
  have "\<bar>4 * D * c * k\<bar> = 4 * (\<bar>D * c\<bar> * \<bar>k\<bar>)"
    by (simp add: abs_mult)
  also have "\<dots> \<le> 4 * ((4 * N) * (1 / 2 ^ 50))"
    using mul_unit(1)[OF c, of D] D k N
    by (intro mult_left_mono mult_mono) simp_all
  also have "\<dots> = 128 * N / 9007199254740992" by simp
  finally show ?thesis .
qed


lemma reflect_twice_error:
  fixes x y mx my a b N :: real
  assumes x: "\<bar>x\<bar> \<le> N" and y: "\<bar>y\<bar> \<le> N" and mx: "\<bar>mx\<bar> \<le> N" and my: "\<bar>my\<bar> \<le> N"
    and a: "\<bar>a\<bar> \<le> 1" and b: "\<bar>b\<bar> \<le> 1"
    and k: "\<bar>a\<^sup>2 + b\<^sup>2 - 1\<bar> \<le> 1 / 2 ^ 50"
  defines "dist1 \<equiv> fl (fl (fl (x - mx) * a) + fl (fl (y - my) * b))"
  defines "x1 \<equiv> fl (x - fl (fl (2 * dist1) * a))"
  defines "y1 \<equiv> fl (y - fl (fl (2 * dist1) * b))"
  defines "dist2 \<equiv> fl (fl (fl (x1 - mx) * a) + fl (fl (y1 - my) * b))"
  shows "\<bar>fl (x1 - fl (fl (2 * dist2) * a)) - x\<bar> \<le> 1043 * N / 9007199254740992 + 133 * eta"
    and "\<bar>fl (y1 - fl (fl (2 * dist2) * b)) - y\<bar> \<le> 1043 * N / 9007199254740992 + 133 * eta"
proof -
  note ep = eta_pos
  have N: "0 \<le> N" using x by linarith
  define D where "D = (x - mx) * a + (y - my) * b"
  define X1 where "X1 = x - 2 * D * a"
  define Y1 where "Y1 = y - 2 * D * b"
  define e1 where "e1 = 61 * N / 9007199254740992 + 22 * eta"
  define N1 where "N1 = 10 * N + 22 * eta"
  have ex: "\<bar>x1 - X1\<bar> \<le> e1"
    unfolding x1_def dist1_def X1_def D_def e1_def
    by (rule reflect_coord_error[OF x y mx my x a b a])
  have ey: "\<bar>y1 - Y1\<bar> \<le> e1"
    unfolding y1_def dist1_def Y1_def D_def e1_def
    by (rule reflect_coord_error[OF x y mx my y a b b])
  have A1: "\<bar>(x - mx) * a\<bar> \<le> 2 * N"
    using mul_unit(1)[OF a, of "x - mx"] x mx by linarith
  have A2: "\<bar>(y - my) * b\<bar> \<le> 2 * N"
    using mul_unit(1)[OF b, of "y - my"] y my by linarith
  have Dm: "\<bar>D\<bar> \<le> 4 * N" unfolding D_def using A1 A2 by linarith
  have "\<bar>D * a\<bar> \<le> 4 * N" using mul_unit(1)[OF a, of D] Dm by linarith
  moreover have "X1 = x - (D * a + D * a)" by (simp add: X1_def)
  ultimately have X1m: "\<bar>X1\<bar> \<le> 9 * N" using x by linarith
  have "\<bar>D * b\<bar> \<le> 4 * N" using mul_unit(1)[OF b, of D] Dm by linarith
  moreover have "Y1 = y - (D * b + D * b)" by (simp add: Y1_def)
  ultimately have Y1m: "\<bar>Y1\<bar> \<le> 9 * N" using y by linarith
  have x1m: "\<bar>x1\<bar> \<le> N1" using ex X1m N ep unfolding e1_def N1_def by linarith
  have y1m: "\<bar>y1\<bar> \<le> N1" using ey Y1m N ep unfolding e1_def N1_def by linarith
  have mx1: "\<bar>mx\<bar> \<le> N1" and my1: "\<bar>my\<bar> \<le> N1"
    using mx my N ep unfolding N1_def by linarith+
  define Rx where "Rx = x1 - 2 * ((x1 - mx) * a + (y1 - my) * b) * a"
  define Ry where "Ry = y1 - 2 * ((x1 - mx) * a + (y1 - my) * b) * b"
  define Sx where "Sx = X1 - 2 * ((X1 - mx) * a + (Y1 - my) * b) * a"
  define Sy where "Sy = Y1 - 2 * ((X1 - mx) * a + (Y1 - my) * b) * b"
  have sx: "\<bar>fl (x1 - fl (fl (2 * dist2) * a)) - Rx\<bar> \<le> 61 * N1 / 9007199254740992 + 22 * eta"
    unfolding dist2_def Rx_def
    by (rule reflect_coord_error[OF x1m y1m mx1 my1 x1m a b a])
  have sy: "\<bar>fl (y1 - fl (fl (2 * dist2) * b)) - Ry\<bar> \<le> 61 * N1 / 9007199254740992 + 22 * eta"
    unfolding dist2_def Ry_def
    by (rule reflect_coord_error[OF x1m y1m mx1 my1 y1m a b b])
  have lx: "\<bar>Rx - Sx\<bar> \<le> 5 * e1"
    unfolding Rx_def Sx_def by (rule refl_lipschitz[OF ex ey ex a b a])
  have ly: "\<bar>Ry - Sy\<bar> \<le> 5 * e1"
    unfolding Ry_def Sy_def by (rule refl_lipschitz[OF ex ey ey a b b])
  have dx: "Sx - x = 4 * D * a * (a\<^sup>2 + b\<^sup>2 - 1)"
    unfolding Sx_def X1_def Y1_def by (rule refl_defect(1)[OF D_def])
  have dy: "Sy - y = 4 * D * b * (a\<^sup>2 + b\<^sup>2 - 1)"
    unfolding Sy_def X1_def Y1_def by (rule refl_defect(2)[OF D_def])
  have bx: "\<bar>Sx - x\<bar> \<le> 128 * N / 9007199254740992"
    unfolding dx by (rule defect_bound[OF Dm a k])
  have by': "\<bar>Sy - y\<bar> \<le> 128 * N / 9007199254740992"
    unfolding dy by (rule defect_bound[OF Dm b k])
  have n1: "61 * N1 / 9007199254740992
              = 610 * N / 9007199254740992 + 1342 * eta / 9007199254740992"
    unfolding N1_def by (simp add: add_divide_distrib distrib_left)
  have l5: "5 * e1 = 305 * N / 9007199254740992 + 110 * eta"
    unfolding e1_def by simp
  show "\<bar>fl (x1 - fl (fl (2 * dist2) * a)) - x\<bar> \<le> 1043 * N / 9007199254740992 + 133 * eta"
    using sx lx bx N ep n1 l5 by linarith
  show "\<bar>fl (y1 - fl (fl (2 * dist2) * b)) - y\<bar> \<le> 1043 * N / 9007199254740992 + 133 * eta"
    using sy ly by' N ep n1 l5 by linarith
qed

text \<open>
  Claim C4, amended. In binary64 arithmetic, for an object and a mirror whose position
  coordinates are at most \<open>N\<close> in absolute value (\<open>N\<close> and the rotation of the mirror at
  most \<open>2\<^sup>1\<^sup>0\<^sup>0\<^sup>0\<close>, so that no operation overflows), and a computed
  normal \<open>(a, b)\<close> with \<open>\<bar>a\<bar> \<le> 1\<close>, \<open>\<bar>b\<bar> \<le> 1\<close> and \<open>a\<^sup>2 + b\<^sup>2\<close> within \<open>2\<^sup>-\<^sup>5\<^sup>0\<close> of 1,
  reflecting the position across the mirror and the result across the same mirror again
  returns the original position up to rounding: each coordinate differs from the original
  by at most \<open>N / 2\<^sup>4\<^sup>2 + 2\<^sup>-\<^sup>1\<^sup>0\<^sup>6\<^sup>7\<close>.
\<close>

theorem double_reflection_within_tolerance:
  assumes p: "\<bar>px p\<bar> \<le> N" "\<bar>py p\<bar> \<le> N"
    and m: "\<bar>px (m_position mirror)\<bar> \<le> N" "\<bar>py (m_position mirror)\<bar> \<le> N"
    and range: "N \<le> 2 ^ 1000" "\<bar>m_rotation mirror\<bar> \<le> 2 ^ 1000"
    and n: "\<bar>px (getMirrorNormal_fl mcos msin mirror)\<bar> \<le> 1"
           "\<bar>py (getMirrorNormal_fl mcos msin mirror)\<bar> \<le> 1"
    and unit: "\<bar>(px (getMirrorNormal_fl mcos msin mirror))\<^sup>2
                + (py (getMirrorNormal_fl mcos msin mirror))\<^sup>2 - 1\<bar> \<le> 1 / 2 ^ 50"
  shows "\<bar>px (virtualImagePosition_fl mcos msin
                (virtualImagePosition_fl mcos msin p mirror) mirror) - px p\<bar>
           \<le> N / 2 ^ 42 + 1 / 2 ^ 1067
       \<and> \<bar>py (virtualImagePosition_fl mcos msin
                (virtualImagePosition_fl mcos msin p mirror) mirror) - py p\<bar>
           \<le> N / 2 ^ 42 + 1 / 2 ^ 1067"
proof -
  have N: "0 \<le> N" using p(1) by linarith
  have e: "256 * eta = 1 / 2 ^ 1067" by (simp add: eta_def)
  have c: "1043 * N / 9007199254740992 + 133 * eta \<le> N / 2 ^ 42 + 1 / 2 ^ 1067"
    unfolding e[symmetric] using N eta_pos by simp
  from reflect_twice_error[OF p m n unit]
  have "\<bar>px (virtualImagePosition_fl mcos msin
                (virtualImagePosition_fl mcos msin p mirror) mirror) - px p\<bar>
           \<le> 1043 * N / 9007199254740992 + 133 * eta"
    and "\<bar>py (virtualImagePosition_fl mcos msin
                (virtualImagePosition_fl mcos msin p mirror) mirror) - py p\<bar>
           \<le> 1043 * N / 9007199254740992 + 133 * eta"
    by (simp_all add: virtualImagePosition_fl_def subtractVectors_fl_def dotProduct_fl_def
          Let_def)
  with c show ?thesis by linarith
qed

theorem double_reflection_within_tolerance_witness:
  "\<bar>px (virtualImagePosition_fl cos sin
         (virtualImagePosition_fl cos sin (Point (3602879701896397 / 2 ^ 55) 0)
            (Mirror 0 (Point 1 0) 6 400 0 None None None))
         (Mirror 0 (Point 1 0) 6 400 0 None None None)) - 3602879701896397 / 2 ^ 55\<bar>
     \<le> 1 / 2 ^ 42 + 1 / 2 ^ 1067"
  using double_reflection_within_tolerance[of "Point (3602879701896397 / 2 ^ 55) 0" 1
          "Mirror 0 (Point 1 0) 6 400 0 None None None" cos sin]
  by (simp add: normal_rot0)

section \<open>Direction and tags of a virtual image\<close>

lemma js_rem_negative: "js_rem (- 90) 360 = - 90"
  by (simp add: js_rem_def js_trunc_def)

lemma js_rem_zero: "js_rem 0 360 = 0" and js_rem_full: "js_rem 360 360 = 0"
  by (simp_all add: js_rem_def js_trunc_def)

text \<open>
  Claim C5. The image has order 1, the size of the object and the given mirror as source
  mirror, and its direction is the remainder of
  \<open>2 * normalizedMirrorAngle - direction + 180\<close> by 360. The claim adds that this
  direction lies in \<open>[0, 360)\<close>. The remainder of the source keeps the sign of the
  dividend: for an object of direction 270 and a mirror of rotation 0 the dividend is
  \<open>- 90\<close>, and so is the direction returned.
\<close>

theorem reflected_direction_negative:
  "v_direction (calculateVirtualImagePosition
      \<lparr> o_position = Point 0 0, o_size = 30, o_direction = 270 \<rparr>
      (Mirror 0 (Point 100 0) 6 400 0 None None None)) = - 90"
  by (simp add: calculateVirtualImagePosition_def Let_def js_rem_zero js_rem_full
        js_rem_negative)

lemma virtual_image_tags:
  "v_order (calculateVirtualImagePosition object mirror) = 1"
  "v_size (calculateVirtualImagePosition object mirror) = o_size object"
  "v_sourceMirror (calculateVirtualImagePosition object mirror) = mirror"
  by (simp_all add: calculateVirtualImagePosition_def Let_def)

section \<open>Visibility of an image\<close>

lemma isDirectlyVisible_iff:
  "isDirectlyVisible f t ms =
     (\<forall>k \<in> set ms. lineIntersection f t (fst (getMirrorEndpoints k))
                       (snd (getMirrorEndpoints k)) = None)"
  by (induction ms) (auto split: prod.splits)

text \<open>
  Claim C3. \<open>isImageVisible\<close> is true exactly when some observer of the list is on the
  other side of the source mirror's plane than the virtual position (the product of the
  two signed sides is negative) and the segment from that observer to the virtual position
  meets no mirror of the list other than the source mirror; it is false for an empty list
  of observers.
\<close>

theorem isImageVisible_iff:
  "(isImageVisible observers mirrors virtualPosition sourceMirror \<longleftrightarrow>
      (\<exists>observer \<in> set observers.
         dotProduct (subtractVectors (ob_position observer) (m_position sourceMirror))
             (getMirrorNormal sourceMirror)
           * dotProduct (subtractVectors virtualPosition (m_position sourceMirror))
               (getMirrorNormal sourceMirror) < 0
         \<and> isDirectlyVisible (ob_position observer) virtualPosition
               (filter (\<lambda>m. \<not> same_mirror m sourceMirror) mirrors)
         \<and> (\<forall>k \<in> set mirrors. \<not> same_mirror k sourceMirror \<longrightarrow>
                lineIntersection (ob_position observer) virtualPosition
                  (fst (getMirrorEndpoints k)) (snd (getMirrorEndpoints k)) = None)))
   \<and> \<not> isImageVisible [] mirrors virtualPosition sourceMirror"
proof
  show "isImageVisible observers mirrors virtualPosition sourceMirror \<longleftrightarrow>
      (\<exists>observer \<in> set observers.
         dotProduct (subtractVectors (ob_position observer) (m_position sourceMirror))
             (getMirrorNormal sourceMirror)
           * dotProduct (subtractVectors virtualPosition (m_position sourceMirror))
               (getMirrorNormal sourceMirror) < 0
         \<and> isDirectlyVisible (ob_position observer) virtualPosition
               (filter (\<lambda>m. \<not> same_mirror m sourceMirror) mirrors)
         \<and> (\<forall>k \<in> set mirrors. \<not> same_mirror k sourceMirror \<longrightarrow>
                lineIntersection (ob_position observer) virtualPosition
                  (fst (getMirrorEndpoints k)) (snd (getMirrorEndpoints k)) = None))"
    by (induction observers) (auto simp: Let_def isDirectlyVisible_iff)
  show "\<not> isImageVisible [] mirrors virtualPosition sourceMirror"
    by simp
qed

theorem isImageVisible_iff_witness:
  "isImageVisible
     [\<lparr> ob_position = Point 0 100, ob_size = 40, ob_color = ''#1E90FF'' \<rparr>]
     [Mirror 0 (Point 0 50) 6 100 90 None None None,
      Mirror 1 (Point 200 50) 6 100 0 None None None] (Point 0 0)
     (Mirror 0 (Point 0 50) 6 100 90 None None None)"
proof -
  let ?ob = "\<lparr> ob_position = Point 0 100, ob_size = 40, ob_color = ''#1E90FF'' \<rparr>"
  let ?m = "Mirror 0 (Point 0 50) 6 100 90 None None None"
  let ?m1 = "Mirror 1 (Point 200 50) 6 100 0 None None None"
  have side: "dotProduct (subtractVectors (ob_position ?ob) (m_position ?m))
                (getMirrorNormal ?m)
              * dotProduct (subtractVectors (Point 0 0) (m_position ?m))
                  (getMirrorNormal ?m) < 0"
    by (simp add: dotProduct_def subtractVectors_def getMirrorNormal_def Let_def)
  have clear: "lineIntersection (Point 0 100) (Point 0 0)
          (fst (getMirrorEndpoints ?m1)) (snd (getMirrorEndpoints ?m1)) = None"
    by (simp add: lineIntersection_def denom_of_def getMirrorEndpoints_def Let_def)
  have vis: "isDirectlyVisible (ob_position ?ob) (Point 0 0)
        (filter (\<lambda>m. \<not> same_mirror m ?m) [?m, ?m1])"
    using clear by (simp add: same_mirror_def isDirectlyVisible_iff)
  have oth: "\<forall>k \<in> set [?m, ?m1]. \<not> same_mirror k ?m \<longrightarrow>
          lineIntersection (ob_position ?ob) (Point 0 0)
            (fst (getMirrorEndpoints k)) (snd (getMirrorEndpoints k)) = None"
    using clear by (simp add: same_mirror_def)
  show ?thesis
    using isImageVisible_iff[of "[?ob]" "[?m, ?m1]" "Point 0 0" ?m] side vis oth
    by auto
qed

section \<open>Ray path: the soft failure of the chain walk\<close>

lemma trace_back_extends:
  "\<exists>rest. trace_back pI ob col ci cur path = path @ rest"
proof (induction pI ob col ci cur path rule: trace_back.induct)
  case (1 pI ob col ci cur path)
  show ?case
  proof (cases "v_order cur > 1")
    case False
    then show ?thesis by (subst trace_back.simps) simp
  next
    case gt: True
    show ?thesis
    proof (cases "find_prev pI cur")
      case None
      then show ?thesis using gt by (subst trace_back.simps) simp
    next
      case (Some prev)
      obtain e0 e1 where e: "getMirrorEndpoints (v_sourceMirror prev) = (e0, e1)"
        by force
      show ?thesis
      proof (cases "lineIntersection ci (v_position prev) e0 e1")
        case None
        then show ?thesis using gt Some e by (subst trace_back.simps) simp
      next
        case (Some pint)
        let ?path' = "path @ [drawPath pint ci False col]
                        @ (if v_order prev = 1
                           then [drawPath (o_position ob) pint False col] else [])"
        from "1.IH"[OF gt \<open>find_prev pI cur = Some prev\<close> e[symmetric] Some]
        obtain rest where "trace_back pI ob col pint prev ?path' = ?path' @ rest"
          by blast
        then show ?thesis using gt \<open>find_prev pI cur = Some prev\<close> e Some
          by (subst trace_back.simps) simp
      qed
    qed
  qed
qed

text \<open>
  Claim C9. At any step of the chain walk of \<open>drawLightRay\<close>, when no image of the order
  before the current one with another source mirror is found in the list supplied, or the
  segment towards the image found does not meet that image's mirror, the walk stops and
  its result is the path drawn up to that step. The walk is a total function to lists of
  segments: it has no error result.
\<close>

theorem trace_back_soft_failure:
  assumes "find_prev parallelImage currentImage = None \<or>
     (\<exists>prevImage. find_prev parallelImage currentImage = Some prevImage \<and>
        lineIntersection currentIntersection (v_position prevImage)
          (fst (getMirrorEndpoints (v_sourceMirror prevImage)))
          (snd (getMirrorEndpoints (v_sourceMirror prevImage))) = None)"
  shows "trace_back parallelImage object color currentIntersection currentImage path = path"
  using assms by (subst trace_back.simps) (auto split: prod.splits)

theorem trace_back_soft_failure_witness:
  "find_prev (Some []) \<lparr> v_position = Point 0 0, v_direction = 0, v_size = 30, v_order = 2,
       v_sourceMirror = Mirror 0 (Point 100 0) 6 400 0 None None None \<rparr> = None
   \<and> trace_back (Some []) \<lparr> o_position = Point 50 0, o_size = 30, o_direction = 0 \<rparr>
       (Some ''rgb(220, 50, 220)'') (Point 100 0)
       \<lparr> v_position = Point 0 0, v_direction = 0, v_size = 30, v_order = 2,
         v_sourceMirror = Mirror 0 (Point 100 0) 6 400 0 None None None \<rparr>
       [drawPath (Point 100 0) (Point 200 0) False (Some ''rgb(220, 50, 220)'')]
     = [drawPath (Point 100 0) (Point 200 0) False (Some ''rgb(220, 50, 220)'')]"
proof -
  have h: "find_prev (Some []) \<lparr> v_position = Point 0 0, v_direction = 0, v_size = 30,
       v_order = 2, v_sourceMirror = Mirror 0 (Point 100 0) 6 400 0 None None None \<rparr> = None"
    by (simp add: find_prev_def)
  show ?thesis
    using h trace_back_soft_failure[OF disjI1, OF h] by simp
qed

section \<open>Fewer than two mirrors\<close>

text \<open>
  Claim C10. For a list of fewer than two mirrors, \<open>calculateParallelMirrorImages\<close>
  returns the empty list, for every object and every bound on the number of reflections.
\<close>

theorem single_mirror_no_images:
  "length mirrors < 2 \<Longrightarrow> calculateParallelMirrorImages object mirrors maxReflections = []"
  by (simp add: calculateParallelMirrorImages_def)

theorem single_mirror_no_images_witness:
  "length [Mirror 0 (Point 100 0) 6 400 180 None None None] < 2
   \<and> calculateParallelMirrorImages \<lparr> o_position = Point 50 0, o_size = 30, o_direction = 0 \<rparr>
       [Mirror 0 (Point 100 0) 6 400 180 None None None] 3 = []"
  using single_mirror_no_images[of "[Mirror 0 (Point 100 0) 6 400 180 None None None]"
          "\<lparr> o_position = Point 50 0, o_size = 30, o_direction = 0 \<rparr>" 3]
  by simp

section \<open>Three mutually parallel mirrors\<close>

lemma upt3:
  "[0..<length [a, b, c]] = [0, 1, 2]"
  "[0 + 1..<length [a, b, c]] = [1, 2]"
  "[1 + 1..<length [a, b, c]] = [2]"
  "[2 + 1..<length [a, b, c]] = []"
  by (simp_all add: upt_conv_Cons)

lemma nth3: "[a, b, c] ! 0 = a" "[a, b, c] ! 1 = b" "[a, b, c] ! 2 = c"
  by (simp_all add: numeral_2_eq_2)

lemma findParallelMirrorGroups3:
  "findParallelMirrorGroups [a, b, c] =
     (let g0 = (if areParallel a b then merge_pair a b [] else []);
          g1 = (if areParallel a c then merge_pair a c g0 else g0)
      in if areParallel b c then merge_pair b c g1 else g1)"
  unfolding findParallelMirrorGroups_def
  by (simp only: upt3 fold_simps id_apply comp_apply nth3 Let_def)

lemma group_includes_simps:
  "group_includes [] m = False"
  "group_includes (k # g) m = (same_mirror k m \<or> group_includes g m)"
  "group_includes (g @ h) m = (group_includes g m \<or> group_includes h m)"
  by (auto simp: group_includes_def)

lemma same_mirror_refl: "same_mirror m m"
  by (simp add: same_mirror_def)

text \<open>
  Claim C8. For a list of exactly three mirrors that are parallel two by two,
  \<open>findParallelMirrorGroups\<close> returns exactly one group, and that group includes all
  three mirrors.
\<close>

theorem three_parallel_one_group:
  assumes "areParallel a b" and "areParallel a c" and "areParallel b c"
  shows "\<exists>g. findParallelMirrorGroups [a, b, c] = [g]
             \<and> group_includes g a \<and> group_includes g b \<and> group_includes g c"
proof -
  let ?g = "if group_includes [a, b] c then [a, b] else [a, b, c]"
  have r: "findParallelMirrorGroups [a, b, c] =
             merge_pair b c (merge_pair a c (merge_pair a b []))"
    using assms by (simp only: findParallelMirrorGroups3 Let_def if_True)
  have s1: "merge_pair a b [] = [[a, b]]"
    by simp
  have s2: "merge_pair a c [[a, b]] = [?g]"
    by (simp add: group_includes_simps same_mirror_refl)
  have s3: "merge_pair b c [?g] = [?g]"
    by (simp add: group_includes_simps same_mirror_refl)
  show ?thesis
    unfolding r s1 s2 s3 by (simp add: group_includes_simps same_mirror_refl)
qed

theorem three_parallel_one_group_witness:
  "areParallel (Mirror 0 (Point 380 300) 6 400 180 None None None)
               (Mirror 1 (Point 620 300) 6 400 180 None None None)
   \<and> areParallel (Mirror 0 (Point 380 300) 6 400 180 None None None)
                 (Mirror 2 (Point 500 300) 6 400 0 None None None)
   \<and> areParallel (Mirror 1 (Point 620 300) 6 400 180 None None None)
                 (Mirror 2 (Point 500 300) 6 400 0 None None None)
   \<and> (\<exists>g. findParallelMirrorGroups
              [Mirror 0 (Point 380 300) 6 400 180 None None None,
               Mirror 1 (Point 620 300) 6 400 180 None None None,
               Mirror 2 (Point 500 300) 6 400 0 None None None] = [g]
           \<and> group_includes g (Mirror 0 (Point 380 300) 6 400 180 None None None)
           \<and> group_includes g (Mirror 1 (Point 620 300) 6 400 180 None None None)
           \<and> group_includes g (Mirror 2 (Point 500 300) 6 400 0 None None None))"
proof -
  let ?a = "Mirror 0 (Point 380 300) 6 400 180 None None None"
  let ?b = "Mirror 1 (Point 620 300) 6 400 180 None None None"
  let ?c = "Mirror 2 (Point 500 300) 6 400 0 None None None"
  have ab: "areParallel ?a ?b" and ac: "areParallel ?a ?c" and bc: "areParallel ?b ?c"
    by (simp_all add: areParallel_def getMirrorNormal_def Let_def)
  from three_parallel_one_group[OF ab ac bc] ab ac bc show ?thesis
    by blast
qed

section \<open>Two facing mirrors: the six images\<close>

lemma js_round_far: "1 \<le> \<bar>x - y\<bar> \<Longrightarrow> js_round x \<noteq> js_round y"
  unfolding js_round_def by linarith

lemma upto3: "[1..3::int] = [1, 2, 3]" by (simp add: upto_rec1)

lemma vpos_rot0:
  assumes "m_rotation m = 0"
  shows "v_position (calculateVirtualImagePosition ob m) =
     Point (2 * px (m_position m) - px (o_position ob)) (py (o_position ob))"
  using assms by (simp add: v_position_eq getMirrorNormal_def dotProduct_def subtractVectors_def)

lemma vpos_rot180:
  assumes "m_rotation m = 180"
  shows "v_position (calculateVirtualImagePosition ob m) =
     Point (2 * px (m_position m) - px (o_position ob)) (py (o_position ob))"
  using assms by (simp add: v_position_eq getMirrorNormal_def dotProduct_def subtractVectors_def)


lemma reflect_step_skip:
  "vo_sourceMirror vObj = Some s \<Longrightarrow> same_mirror mirror s \<Longrightarrow>
   reflect_step reflection vObj mirror st = st"
  by (simp add: reflect_step_def split: prod.splits)

lemma reflect_step_accept:
  assumes "case vo_sourceMirror vObj of None \<Rightarrow> True | Some s \<Rightarrow> \<not> same_mirror mirror s"
    and "virtual = calculateVirtualImagePosition
           \<lparr> o_position = vo_position vObj, o_size = o_size (vo_sourceObject vObj),
             o_direction = vo_direction vObj \<rparr> mirror"
    and "key = (js_round (px (v_position virtual)), js_round (py (v_position virtual)),
                reflection)"
    and "key \<notin> set imageMap"
  shows "reflect_step reflection vObj mirror (imageMap, results, nvo) =
           (key # imageMap,
            results @ [virtual \<lparr> v_order := reflection, v_sourceMirror := mirror \<rparr>],
            nvo @ [\<lparr> vo_position = v_position virtual, vo_direction = v_direction virtual,
                     vo_size = v_size virtual, vo_sourceObject = vo_sourceObject vObj,
                     vo_sourceMirror = Some mirror, vo_reflectionOrder = reflection \<rparr>])"
  using assms by (simp add: reflect_step_def Let_def split: option.splits)

text \<open>
  Claim C1. Two parallel mirrors 400 units apart, of rotations 180 and 0 degrees, two
  different objects, and an object centred between them: with at most 3 reflections,
  \<open>calculateParallelMirrorImages\<close> returns exactly 6 images, two of each order 1, 2
  and 3. The image of order \<open>k + 1\<close> derived from an image of order \<open>k\<close> is its reflection
  in the other mirror, so the source mirrors alternate along each of the two chains
  \<open>i1, i3, i5\<close> and \<open>i2, i4, i6\<close>.
\<close>

theorem parallel_pair_images:
  assumes r1: "m_rotation m1 = 180" and r2: "m_rotation m2 = 0"
    and ident: "m_ident m1 \<noteq> m_ident m2"
    and dist: "\<bar>px (m_position m2) - px (m_position m1)\<bar> = 400"
    and mid: "px (o_position ob) = (px (m_position m1) + px (m_position m2)) / 2"
  shows "let i1 = calculateVirtualImagePosition ob m1;
             i2 = calculateVirtualImagePosition ob m2;
             i3 = calculateVirtualImagePosition (as_object ob i1) m2;
             i4 = calculateVirtualImagePosition (as_object ob i2) m1;
             i5 = calculateVirtualImagePosition (as_object ob i3) m1;
             i6 = calculateVirtualImagePosition (as_object ob i4) m2;
             images = calculateParallelMirrorImages ob [m1, m2] 3
         in images = [i1, i2, i3 \<lparr> v_order := 2 \<rparr>, i4 \<lparr> v_order := 2 \<rparr>,
                      i5 \<lparr> v_order := 3 \<rparr>, i6 \<lparr> v_order := 3 \<rparr>]
            \<and> length images = 6
            \<and> map v_order images = [1, 1, 2, 2, 3, 3]
            \<and> map v_sourceMirror images = [m1, m2, m2, m1, m1, m2]"
proof -
  define i1 where "i1 = calculateVirtualImagePosition ob m1"
  define i2 where "i2 = calculateVirtualImagePosition ob m2"
  define i3 where "i3 = calculateVirtualImagePosition (as_object ob i1) m2"
  define i4 where "i4 = calculateVirtualImagePosition (as_object ob i2) m1"
  define i5 where "i5 = calculateVirtualImagePosition (as_object ob i3) m1"
  define i6 where "i6 = calculateVirtualImagePosition (as_object ob i4) m2"
  define vo where "vo i m k = \<lparr> vo_position = v_position i, vo_direction = v_direction i,
      vo_size = v_size i, vo_sourceObject = ob, vo_sourceMirror = Some m,
      vo_reflectionOrder = k \<rparr>" for i :: VirtualImage and m k
  define seed where "seed = \<lparr> vo_position = o_position ob, vo_direction = o_direction ob,
      vo_size = o_size ob, vo_sourceObject = ob, vo_sourceMirror = None,
      vo_reflectionOrder = 0 \<rparr>"
  define key where "key i k = (js_round (px (v_position i)), js_round (py (v_position i)), k)"
    for i :: VirtualImage and k :: int
  define res where "res i k m = i \<lparr> v_order := k, v_sourceMirror := m \<rparr>"
    for i :: VirtualImage and k :: int and m :: mirror
  let ?xa = "px (m_position m1)" and ?xb = "px (m_position m2)" and ?xo = "px (o_position ob)"
  have x1: "px (v_position i1) = 2 * ?xa - ?xo" and x2: "px (v_position i2) = 2 * ?xb - ?xo"
    by (simp_all add: i1_def i2_def vpos_rot180[OF r1] vpos_rot0[OF r2])
  have x3: "px (v_position i3) = 2 * ?xb - px (v_position i1)"
    and x4: "px (v_position i4) = 2 * ?xa - px (v_position i2)"
    by (simp_all add: i3_def i4_def vpos_rot180[OF r1] vpos_rot0[OF r2] as_object_def)
  have x5: "px (v_position i5) = 2 * ?xa - px (v_position i3)"
    and x6: "px (v_position i6) = 2 * ?xb - px (v_position i4)"
    by (simp_all add: i5_def i6_def vpos_rot180[OF r1] vpos_rot0[OF r2] as_object_def)
  have "js_round (px (v_position i2)) \<noteq> js_round (px (v_position i1))"
    by (rule js_round_far) (use dist in \<open>simp add: x1 x2\<close>)
  then have k12: "key i2 1 \<noteq> key i1 1" by (simp add: key_def)
  have "js_round (px (v_position i4)) \<noteq> js_round (px (v_position i3))"
    by (rule js_round_far) (use dist in \<open>simp add: x1 x2 x3 x4\<close>)
  then have k34: "key i4 2 \<noteq> key i3 2" by (simp add: key_def)
  have "js_round (px (v_position i6)) \<noteq> js_round (px (v_position i5))"
    by (rule js_round_far) (use dist in \<open>simp add: x1 x2 x3 x4 x5 x6\<close>)
  then have k56: "key i6 3 \<noteq> key i5 3" by (simp add: key_def)
  have sm: "same_mirror m1 m1" "same_mirror m2 m2" "\<not> same_mirror m1 m2" "\<not> same_mirror m2 m1"
    using ident by (auto simp: same_mirror_def)
  have ob_eta: "\<lparr> o_position = o_position ob, o_size = o_size ob, o_direction = o_direction ob \<rparr> = ob"
    by simp
  have R1: "reflection_round [m1, m2] 1 ([], [], [seed]) =
              ([key i2 1, key i1 1], [res i1 1 m1, res i2 1 m2], [vo i1 m1 1, vo i2 m2 1])"
  proof -
    have a: "reflect_step 1 seed m1 ([], [], []) = ([key i1 1], [res i1 1 m1], [vo i1 m1 1])"
      by (subst reflect_step_accept[where virtual = i1 and key = "key i1 1"])
         (simp_all add: seed_def i1_def key_def res_def vo_def virtual_image_tags ob_eta)
    have b: "reflect_step 1 seed m2 ([key i1 1], [res i1 1 m1], [vo i1 m1 1]) =
               ([key i2 1, key i1 1], [res i1 1 m1, res i2 1 m2], [vo i1 m1 1, vo i2 m2 1])"
      using k12
      by (subst reflect_step_accept[where virtual = i2 and key = "key i2 1"])
         (simp_all add: seed_def i2_def key_def res_def vo_def virtual_image_tags ob_eta)
    show ?thesis by (simp add: reflection_round_def a b)
  qed
  have R2: "reflection_round [m1, m2] 2
                ([key i2 1, key i1 1], [res i1 1 m1, res i2 1 m2], [vo i1 m1 1, vo i2 m2 1]) =
              ([key i4 2, key i3 2, key i2 1, key i1 1],
               [res i1 1 m1, res i2 1 m2, res i3 2 m2, res i4 2 m1],
               [vo i3 m2 2, vo i4 m1 2])"
  proof -
    let ?km = "[key i2 1, key i1 1]" and ?rs = "[res i1 1 m1, res i2 1 m2]"
    have a: "reflect_step 2 (vo i1 m1 1) m1 (?km, ?rs, []) = (?km, ?rs, [])"
      by (rule reflect_step_skip[where s = m1]) (simp_all add: vo_def sm)
    have b: "reflect_step 2 (vo i1 m1 1) m2 (?km, ?rs, []) =
               ([key i3 2, key i2 1, key i1 1], [res i1 1 m1, res i2 1 m2, res i3 2 m2],
                [vo i3 m2 2])"
      by (subst reflect_step_accept[where virtual = i3 and key = "key i3 2"])
         (simp_all add: i3_def as_object_def key_def res_def vo_def virtual_image_tags sm)
    have c: "reflect_step 2 (vo i2 m2 1) m1
               ([key i3 2, key i2 1, key i1 1], [res i1 1 m1, res i2 1 m2, res i3 2 m2],
                [vo i3 m2 2]) =
               ([key i4 2, key i3 2, key i2 1, key i1 1],
                [res i1 1 m1, res i2 1 m2, res i3 2 m2, res i4 2 m1],
                [vo i3 m2 2, vo i4 m1 2])"
      using k34
      by (subst reflect_step_accept[where virtual = i4 and key = "key i4 2"])
         (simp_all add: i4_def as_object_def key_def res_def vo_def virtual_image_tags sm)
    have d: "reflect_step 2 (vo i2 m2 1) m2 st = st" for st
      by (rule reflect_step_skip[where s = m2]) (simp_all add: vo_def sm)
    show ?thesis by (simp add: reflection_round_def a b c d)
  qed
  have R3: "reflection_round [m1, m2] 3
                ([key i4 2, key i3 2, key i2 1, key i1 1],
                 [res i1 1 m1, res i2 1 m2, res i3 2 m2, res i4 2 m1],
                 [vo i3 m2 2, vo i4 m1 2]) =
              ([key i6 3, key i5 3, key i4 2, key i3 2, key i2 1, key i1 1],
               [res i1 1 m1, res i2 1 m2, res i3 2 m2, res i4 2 m1, res i5 3 m1, res i6 3 m2],
               [vo i5 m1 3, vo i6 m2 3])"
  proof -
    let ?km = "[key i4 2, key i3 2, key i2 1, key i1 1]"
    let ?rs = "[res i1 1 m1, res i2 1 m2, res i3 2 m2, res i4 2 m1]"
    have a: "reflect_step 3 (vo i3 m2 2) m1 (?km, ?rs, []) =
               ([key i5 3, key i4 2, key i3 2, key i2 1, key i1 1],
                [res i1 1 m1, res i2 1 m2, res i3 2 m2, res i4 2 m1, res i5 3 m1],
                [vo i5 m1 3])"
      by (subst reflect_step_accept[where virtual = i5 and key = "key i5 3"])
         (simp_all add: i5_def as_object_def key_def res_def vo_def virtual_image_tags sm)
    have b: "reflect_step 3 (vo i3 m2 2) m2 st = st" for st
      by (rule reflect_step_skip[where s = m2]) (simp_all add: vo_def sm)
    have c: "reflect_step 3 (vo i4 m1 2) m1 st = st" for st
      by (rule reflect_step_skip[where s = m1]) (simp_all add: vo_def sm)
    have d: "reflect_step 3 (vo i4 m1 2) m2
               ([key i5 3, key i4 2, key i3 2, key i2 1, key i1 1],
                [res i1 1 m1, res i2 1 m2, res i3 2 m2, res i4 2 m1, res i5 3 m1],
                [vo i5 m1 3]) =
               ([key i6 3, key i5 3, key i4 2, key i3 2, key i2 1, key i1 1],
                [res i1 1 m1, res i2 1 m2, res i3 2 m2, res i4 2 m1, res i5 3 m1, res i6 3 m2],
                [vo i5 m1 3, vo i6 m2 3])"
      using k56
      by (subst reflect_step_accept[where virtual = i6 and key = "key i6 3"])
         (simp_all add: i6_def as_object_def key_def res_def vo_def virtual_image_tags sm)
    show ?thesis by (simp add: reflection_round_def a b c d)
  qed
  have final: "fold (reflection_round [m1, m2]) [1..3] ([], [], [seed]) =
              ([key i6 3, key i5 3, key i4 2, key i3 2, key i2 1, key i1 1],
               [res i1 1 m1, res i2 1 m2, res i3 2 m2, res i4 2 m1, res i5 3 m1, res i6 3 m2],
               [vo i5 m1 3, vo i6 m2 3])"
    by (simp add: upto3 R1 R2 R3)
  have "calculateParallelMirrorImages ob [m1, m2] 3 =
              [i1, i2, i3 \<lparr> v_order := 2 \<rparr>, i4 \<lparr> v_order := 2 \<rparr>,
               i5 \<lparr> v_order := 3 \<rparr>, i6 \<lparr> v_order := 3 \<rparr>]"
    unfolding calculateParallelMirrorImages_def seed_def[symmetric]
    by (simp add: final res_def Let_def)
       (simp add: i1_def i2_def i3_def i4_def i5_def i6_def as_object_def
          calculateVirtualImagePosition_def Let_def)
  then show ?thesis
    by (simp add: Let_def i1_def i2_def i3_def i4_def i5_def i6_def virtual_image_tags)
qed

theorem parallel_pair_images_witness:
  "m_rotation (Mirror 0 (Point 200 300) 6 400 180 None None None) = 180
   \<and> m_rotation (Mirror 1 (Point 600 300) 6 400 0 None None None) = 0
   \<and> m_ident (Mirror 0 (Point 200 300) 6 400 180 None None None)
       \<noteq> m_ident (Mirror 1 (Point 600 300) 6 400 0 None None None)
   \<and> length (calculateParallelMirrorImages
         \<lparr> o_position = Point 400 300, o_size = 30, o_direction = 0 \<rparr>
         [Mirror 0 (Point 200 300) 6 400 180 None None None,
          Mirror 1 (Point 600 300) 6 400 0 None None None] 3) = 6
   \<and> map v_order (calculateParallelMirrorImages
         \<lparr> o_position = Point 400 300, o_size = 30, o_direction = 0 \<rparr>
         [Mirror 0 (Point 200 300) 6 400 180 None None None,
          Mirror 1 (Point 600 300) 6 400 0 None None None] 3) = [1, 1, 2, 2, 3, 3]"
  using parallel_pair_images[of "Mirror 0 (Point 200 300) 6 400 180 None None None"
          "Mirror 1 (Point 600 300) 6 400 0 None None None"
          "\<lparr> o_position = Point 400 300, o_size = 30, o_direction = 0 \<rparr>"]
  by (simp add: Let_def virtual_image_tags)

section \<open>Enumeration of the virtual mirrors\<close>

lemma fold_product:
  "fold (\<lambda>i. fold (g i) js) is s = fold (\<lambda>(i, j). g i j) (List.product is js) s"
  by (induction "is" arbitrary: s) (simp_all add: fold_map comp_def)

lemma first_loop_flat:
  "\<exists>new. fold (\<lambda>(i, j). first_order_step next ms i j) xs (fo, vm) = (fo @ new, vm @ new)
     \<and> list_all2 (\<lambda>v (i, j). \<exists>k. v = set_order 1 (calculateVirtualMirror k (ms ! i) (ms ! j)))
           new (filter (\<lambda>(i, j). i \<noteq> j) xs)"
proof (induction xs arbitrary: fo vm)
  case Nil
  then show ?case by simp
next
  case (Cons x xs)
  obtain i j where x: "x = (i, j)" by (cases x)
  show ?case
  proof (cases "i = j")
    case True
    then show ?thesis using Cons.IH[of fo vm] by (simp add: x first_order_step_def)
  next
    case False
    let ?v = "set_order 1 (calculateVirtualMirror (next + length vm) (ms ! i) (ms ! j))"
    from Cons.IH[of "fo @ [?v]" "vm @ [?v]"] obtain new where
      n: "fold (\<lambda>(i, j). first_order_step next ms i j) xs (fo @ [?v], vm @ [?v])
            = ((fo @ [?v]) @ new, (vm @ [?v]) @ new)"
      and l: "list_all2 (\<lambda>v (i, j). \<exists>k. v = set_order 1 (calculateVirtualMirror k (ms ! i) (ms ! j)))
           new (filter (\<lambda>(i, j). i \<noteq> j) xs)"
      by blast
    have st: "first_order_step next ms i j (fo, vm) = (fo @ [?v], vm @ [?v])"
      using False by (simp add: first_order_step_def Let_def)
    show ?thesis
      by (rule exI[of _ "?v # new"]) (use False n l in \<open>auto simp add: x st\<close>)
  qed
qed

lemma second_loop_flat:
  "\<exists>new. fold (\<lambda>(i, j). second_order_step next ms fo i j) xs vm = vm @ new
     \<and> list_all2 (\<lambda>w (i, j). \<exists>k. w = set_order 2 (calculateVirtualMirror k (fo ! i) (ms ! j)))
           new (filter (\<lambda>(i, j). source_differs (fo ! i) (ms ! j)) xs)"
proof (induction xs arbitrary: vm)
  case Nil
  then show ?case by simp
next
  case (Cons x xs)
  obtain i j where x: "x = (i, j)" by (cases x)
  show ?case
  proof (cases "source_differs (fo ! i) (ms ! j)")
    case False
    then show ?thesis using Cons.IH[of vm] by (simp add: x second_order_step_def)
  next
    case True
    let ?v = "set_order 2 (calculateVirtualMirror (next + length vm) (fo ! i) (ms ! j))"
    from Cons.IH[of "vm @ [?v]"] obtain new where
      n: "fold (\<lambda>(i, j). second_order_step next ms fo i j) xs (vm @ [?v]) = (vm @ [?v]) @ new"
      and l: "list_all2 (\<lambda>w (i, j). \<exists>k. w = set_order 2 (calculateVirtualMirror k (fo ! i) (ms ! j)))
           new (filter (\<lambda>(i, j). source_differs (fo ! i) (ms ! j)) xs)"
      by blast
    have st: "second_order_step next ms fo i j vm = vm @ [?v]"
      using True by (simp add: second_order_step_def)
    show ?thesis
      by (rule exI[of _ "?v # new"]) (use True n l in \<open>auto simp add: x st\<close>)
  qed
qed

lemma length_filter_product:
  "length (filter (\<lambda>(i, j). P i j) (List.product is js)) =
     sum_list (map (\<lambda>i. length (filter (P i) js)) is)"
  by (induction "is") (simp_all add: filter_map comp_def)

lemma length_filter_neq_upt:
  "i < n \<Longrightarrow> length (filter (\<lambda>j. i \<noteq> j) [0..<n]) = n - 1"
proof -
  assume i: "i < n"
  have "filter (\<lambda>j. i \<noteq> j) [0..<n] = removeAll i [0..<n]"
    by (simp add: removeAll_filter_not_eq)
  also have "\<dots> = remove1 i [0..<n]" by (simp add: distinct_remove1_removeAll)
  finally show ?thesis using i by (simp add: length_remove1)
qed

lemma count_first: "length (filter (\<lambda>(i, j). i \<noteq> j) (List.product [0..<n] [0..<n])) = n * (n - 1)"
proof -
  have "sum_list (map (\<lambda>i. length (filter (\<lambda>j. i \<noteq> j) [0..<n])) [0..<n])
          = sum_list (map (\<lambda>i. n - 1) [0..<n])"
    by (rule arg_cong[where f = sum_list], rule map_cong) (simp_all add: length_filter_neq_upt)
  then show ?thesis by (simp add: length_filter_product sum_list_triv)
qed


lemma set_order_tags:
  "m_isVirtual (set_order k m) = Some True"
  "m_order (set_order k m) = Some k"
  "m_sourceMirror (set_order k m) = m_sourceMirror m"
  by (simp_all add: set_order_def)

lemma calculateVirtualMirror_source:
  "m_sourceMirror (calculateVirtualMirror fresh a b) = Some b"
  by (simp add: calculateVirtualMirror_def Let_def split: prod.splits)

lemma length_filter_differs:
  assumes d: "distinct (map m_ident ms)" and b: "b < length ms"
    and v: "m_sourceMirror v = Some (ms ! b)"
  shows "length (filter (\<lambda>j. source_differs v (ms ! j)) [0..<length ms]) = length ms - 1"
proof -
  have "filter (\<lambda>j. source_differs v (ms ! j)) [0..<length ms]
          = filter (\<lambda>j. b \<noteq> j) [0..<length ms]"
  proof (rule filter_cong[OF refl])
    fix j assume "j \<in> set [0..<length ms]"
    then have j: "j < length ms" by simp
    have "m_ident (ms ! b) = m_ident (ms ! j) \<longleftrightarrow> b = j"
      using nth_eq_iff_index_eq[OF d, of b j] b j by simp
    then show "source_differs v (ms ! j) = (b \<noteq> j)"
      by (simp add: source_differs_def v same_mirror_def)
  qed
  then show ?thesis using b by (simp add: length_filter_neq_upt)
qed

text \<open>
  Claim C2. For at most one mirror \<open>calculateVirtualMirrors\<close> returns the empty list.
  For \<open>n \<ge> 2\<close> mirrors that are pairwise different objects, the result is the list
  \<open>first\<close> of the first-order virtual mirrors followed by the list \<open>second\<close> of the
  second-order ones: \<open>first\<close> has one mirror for each ordered pair \<open>(i, j)\<close> with
  \<open>i \<noteq> j\<close> (mirror \<open>i\<close> reflected in mirror \<open>j\<close>, virtual, of order 1, with source
  mirror \<open>j\<close>), so \<open>n * (n - 1)\<close> of them; \<open>second\<close> has one mirror for each
  first-order mirror and each real mirror that is not its source (virtual, of order 2),
  so \<open>n * (n - 1) * (n - 1)\<close> of them; every mirror returned has order 1 or 2.
\<close>

theorem virtual_mirrors_enumeration:
  "(length mirrors \<le> 1 \<longrightarrow> calculateVirtualMirrors next mirrors = [])
   \<and> (2 \<le> length mirrors \<and> distinct (map m_ident mirrors) \<longrightarrow>
       (\<exists>first second.
          calculateVirtualMirrors next mirrors = first @ second
          \<and> list_all2
               (\<lambda>v (i, j). (\<exists>k. v = set_order 1 (calculateVirtualMirror k (mirrors ! i) (mirrors ! j)))
                   \<and> m_isVirtual v = Some True \<and> m_order v = Some 1
                   \<and> m_sourceMirror v = Some (mirrors ! j))
               first
               (filter (\<lambda>(i, j). i \<noteq> j)
                  (List.product [0..<length mirrors] [0..<length mirrors]))
          \<and> length first = length mirrors * (length mirrors - 1)
          \<and> list_all2
               (\<lambda>w (i, j). (\<exists>k. w = set_order 2 (calculateVirtualMirror k (first ! i) (mirrors ! j)))
                   \<and> m_isVirtual w = Some True \<and> m_order w = Some 2
                   \<and> m_sourceMirror w = Some (mirrors ! j))
               second
               (filter (\<lambda>(i, j). source_differs (first ! i) (mirrors ! j))
                  (List.product [0..<length first] [0..<length mirrors]))
          \<and> length second = length mirrors * (length mirrors - 1) * (length mirrors - 1)
          \<and> (\<forall>m \<in> set (first @ second).
                 m_isVirtual m = Some True \<and> (m_order m = Some 1 \<or> m_order m = Some 2))))"
proof (intro conjI impI)
  show "calculateVirtualMirrors next mirrors = []" if "length mirrors \<le> 1"
    using that by (simp add: calculateVirtualMirrors_def)
next
  assume a: "2 \<le> length mirrors \<and> distinct (map m_ident mirrors)"
  then have n2: "2 \<le> length mirrors" and d: "distinct (map m_ident mirrors)" by simp_all
  let ?n = "length mirrors"
  let ?pairs = "filter (\<lambda>(i, j). i \<noteq> j) (List.product [0..<?n] [0..<?n])"
  let ?R1 = "\<lambda>v (i, j). \<exists>k. v = set_order 1 (calculateVirtualMirror k (mirrors ! i) (mirrors ! j))"
  from first_loop_flat[of "next" mirrors "List.product [0..<?n] [0..<?n]" "[]" "[]"]
  obtain first where
    f: "fold (\<lambda>i. fold (first_order_step next mirrors i) [0..<?n]) [0..<?n] ([], []) = (first, first)"
    and l1: "list_all2 ?R1 first ?pairs"
    by (auto simp: fold_product)
  let ?idx = "filter (\<lambda>(i, j). source_differs (first ! i) (mirrors ! j))
                  (List.product [0..<length first] [0..<?n])"
  let ?R2 = "\<lambda>w (i, j). \<exists>k. w = set_order 2 (calculateVirtualMirror k (first ! i) (mirrors ! j))"
  from second_loop_flat[of "next" mirrors first "List.product [0..<length first] [0..<?n]" first]
  obtain second where
    s: "fold (\<lambda>i. fold (second_order_step next mirrors first i) [0..<?n]) [0..<length first] first
          = first @ second"
    and l2: "list_all2 ?R2 second ?idx"
    by (auto simp: fold_product)
  have res: "calculateVirtualMirrors next mirrors = first @ second"
    using n2 by (simp add: calculateVirtualMirrors_def f s)
  have len1: "length first = ?n * (?n - 1)"
    using list_all2_lengthD[OF l1] by (simp add: count_first)
  have l1': "list_all2
               (\<lambda>v (i, j). (\<exists>k. v = set_order 1 (calculateVirtualMirror k (mirrors ! i) (mirrors ! j)))
                   \<and> m_isVirtual v = Some True \<and> m_order v = Some 1
                   \<and> m_sourceMirror v = Some (mirrors ! j)) first ?pairs"
    by (rule list_all2_mono[OF l1]) (auto simp: set_order_tags calculateVirtualMirror_source)
  have l2': "list_all2
               (\<lambda>w (i, j). (\<exists>k. w = set_order 2 (calculateVirtualMirror k (first ! i) (mirrors ! j)))
                   \<and> m_isVirtual w = Some True \<and> m_order w = Some 2
                   \<and> m_sourceMirror w = Some (mirrors ! j)) second ?idx"
    by (rule list_all2_mono[OF l2]) (auto simp: set_order_tags calculateVirtualMirror_source)
  have src: "\<exists>b < ?n. m_sourceMirror (first ! i) = Some (mirrors ! b)" if i: "i < length first" for i
  proof -
    obtain a b where ab: "?pairs ! i = (a, b)" by (cases "?pairs ! i")
    have il: "i < length ?pairs" using i list_all2_lengthD[OF l1] by simp
    then have "(a, b) \<in> set ?pairs" using ab nth_mem by metis
    then have b: "b < ?n" by auto
    from list_all2_nthD[OF l1' i] ab have "m_sourceMirror (first ! i) = Some (mirrors ! b)"
      by simp
    with b show ?thesis by blast
  qed
  have cnt: "length (filter (\<lambda>j. source_differs (first ! i) (mirrors ! j)) [0..<?n]) = ?n - 1"
    if i: "i < length first" for i
    using src[OF i] length_filter_differs[OF d] by blast
  have "length ?idx = sum_list (map (\<lambda>i. length (filter (\<lambda>j. source_differs (first ! i) (mirrors ! j)) [0..<?n])) [0..<length first])"
    by (rule length_filter_product)
  also have "\<dots> = sum_list (map (\<lambda>i. ?n - 1) [0..<length first])"
    by (rule arg_cong[where f = sum_list], rule map_cong) (simp_all add: cnt)
  also have "\<dots> = length first * (?n - 1)" by (simp add: sum_list_triv)
  finally have len2: "length second = ?n * (?n - 1) * (?n - 1)"
    using list_all2_lengthD[OF l2] len1 by simp
  have t1: "m_isVirtual m = Some True \<and> m_order m = Some 1" if "m \<in> set first" for m
  proof -
    from that obtain i where i: "i < length first" and m: "m = first ! i"
      by (auto simp: in_set_conv_nth)
    from list_all2_nthD[OF l1' i] show ?thesis
      by (cases "?pairs ! i") (simp add: m)
  qed
  have t2: "m_isVirtual m = Some True \<and> m_order m = Some 2" if "m \<in> set second" for m
  proof -
    from that obtain i where i: "i < length second" and m: "m = second ! i"
      by (auto simp: in_set_conv_nth)
    from list_all2_nthD[OF l2' i] show ?thesis
      by (cases "?idx ! i") (simp add: m)
  qed
  have tags: "\<forall>m \<in> set (first @ second).
                 m_isVirtual m = Some True \<and> (m_order m = Some 1 \<or> m_order m = Some 2)"
    using t1 t2 by auto
  show "\<exists>first second.
          calculateVirtualMirrors next mirrors = first @ second
          \<and> list_all2
               (\<lambda>v (i, j). (\<exists>k. v = set_order 1 (calculateVirtualMirror k (mirrors ! i) (mirrors ! j)))
                   \<and> m_isVirtual v = Some True \<and> m_order v = Some 1
                   \<and> m_sourceMirror v = Some (mirrors ! j))
               first
               (filter (\<lambda>(i, j). i \<noteq> j)
                  (List.product [0..<length mirrors] [0..<length mirrors]))
          \<and> length first = length mirrors * (length mirrors - 1)
          \<and> list_all2
               (\<lambda>w (i, j). (\<exists>k. w = set_order 2 (calculateVirtualMirror k (first ! i) (mirrors ! j)))
                   \<and> m_isVirtual w = Some True \<and> m_order w = Some 2
                   \<and> m_sourceMirror w = Some (mirrors ! j))
               second
               (filter (\<lambda>(i, j). source_differs (first ! i) (mirrors ! j))
                  (List.product [0..<length first] [0..<length mirrors]))
          \<and> length second = length mirrors * (length mirrors - 1) * (length mirrors - 1)
          \<and> (\<forall>m \<in> set (first @ second).
                 m_isVirtual m = Some True \<and> (m_order m = Some 1 \<or> m_order m = Some 2))"
    using res l1' len1 l2' len2 tags by blast
qed

theorem virtual_mirrors_enumeration_witness:
  "2 \<le> length [Mirror 0 (Point 380 300) 6 400 180 None None None,
                 Mirror 1 (Point 620 300) 6 400 180 None None None]
   \<and> distinct (map m_ident [Mirror 0 (Point 380 300) 6 400 180 None None None,
                 Mirror 1 (Point 620 300) 6 400 180 None None None])
   \<and> length (calculateVirtualMirrors 2 [Mirror 0 (Point 380 300) 6 400 180 None None None,
                 Mirror 1 (Point 620 300) 6 400 180 None None None]) = 4
   \<and> length [Mirror 0 (Point 380 300) 6 400 180 None None None] \<le> 1
   \<and> calculateVirtualMirrors 1 [Mirror 0 (Point 380 300) 6 400 180 None None None] = []"
  using virtual_mirrors_enumeration[of "[Mirror 0 (Point 380 300) 6 400 180 None None None,
                 Mirror 1 (Point 620 300) 6 400 180 None None None]" 2]
    virtual_mirrors_enumeration[of "[Mirror 0 (Point 380 300) 6 400 180 None None None]" 1]
  by auto

section \<open>Groups of parallel mirrors: disjointness and parallelism\<close>

lemma cos_lower: "1 - x\<^sup>2 / 2 \<le> cos (x::real)"
proof -
  have "\<bar>sin (x / 2)\<bar> \<le> \<bar>x / 2\<bar>" by (rule abs_sin_x_le_abs_x)
  then have "(sin (x / 2))\<^sup>2 \<le> (x / 2)\<^sup>2"
    by (simp only: abs_le_square_iff)
  moreover have "cos x = 1 - 2 * (sin (x / 2))\<^sup>2"
    using cos_double_sin[of "x / 2"] by simp
  ultimately show ?thesis by (simp add: power2_eq_square)
qed

lemma cos_2deg: "999 / 1000 < cos (pi / 90)"
proof -
  have "(pi / 90)\<^sup>2 < (4 / 90)\<^sup>2"
    using pi_less_4 pi_gt_zero by (intro power_strict_mono) simp_all
  then have "999 / 1000 < 1 - (pi / 90)\<^sup>2 / 2" by (simp add: power2_eq_square)
  also have "\<dots> \<le> cos (pi / 90)" by (rule cos_lower)
  finally show ?thesis .
qed

lemma cos_double_lower:
  assumes "a \<le> cos (x::real)" and "0 \<le> a"
  shows "2 * a\<^sup>2 - 1 \<le> cos (2 * x)"
proof -
  have "a\<^sup>2 \<le> (cos x)\<^sup>2" using assms by (intro power_mono) simp_all
  then show ?thesis by (simp add: cos_double_cos)
qed

lemma cos_4deg: "cos (pi / 45) \<le> 999 / 1000"
proof (rule ccontr)
  assume "\<not> cos (pi / 45) \<le> 999 / 1000"
  then have c1: "999 / 1000 \<le> cos (pi / 45)" by simp
  have c2: "996 / 1000 \<le> cos (2 * (pi / 45))"
    using cos_double_lower[OF c1] by (simp add: power2_eq_square)
  have c4: "984 / 1000 \<le> cos (2 * (2 * (pi / 45)))"
    using cos_double_lower[OF c2] by (simp add: power2_eq_square)
  have c8: "936 / 1000 \<le> cos (2 * (2 * (2 * (pi / 45))))"
    using cos_double_lower[OF c4] by (simp add: power2_eq_square)
  have c16: "75 / 100 \<le> cos (2 * (2 * (2 * (2 * (pi / 45)))))"
    using cos_double_lower[OF c8] by (simp add: power2_eq_square)
  have "cos (2 * (2 * (2 * (2 * (pi / 45))))) \<le> cos (pi / 3)"
    using pi_gt_zero by (intro cos_monotone_0_pi_le) simp_all
  with c16 show False by (simp add: cos_60)
qed

lemma cos_6deg: "cos (pi / 30) \<le> 999 / 1000"
proof -
  have "cos (pi / 30) \<le> cos (pi / 45)"
    using pi_gt_zero by (intro cos_monotone_0_pi_le) simp_all
  with cos_4deg show ?thesis by simp
qed

lemma areParallel_iff:
  "areParallel a b \<longleftrightarrow> 999 / 1000 < \<bar>cos ((m_rotation a - m_rotation b) * pi / 180)\<bar>"
proof -
  have "cos (m_rotation a * pi / 180) * cos (m_rotation b * pi / 180)
         + sin (m_rotation a * pi / 180) * sin (m_rotation b * pi / 180)
        = cos (m_rotation a * pi / 180 - m_rotation b * pi / 180)"
    by (simp add: cos_diff)
  also have "\<dots> = cos ((m_rotation a - m_rotation b) * pi / 180)"
    by (simp add: algebra_simps diff_divide_distrib)
  finally show ?thesis by (simp add: areParallel_def getMirrorNormal_def Let_def)
qed


lemma areParallel_refl: "areParallel a a"
  by (simp add: areParallel_iff)

lemma upt4:
  "[0..<length [a, b, c, d]] = [0, 1, 2, 3]"
  "[0 + 1..<length [a, b, c, d]] = [1, 2, 3]"
  "[1 + 1..<length [a, b, c, d]] = [2, 3]"
  "[2 + 1..<length [a, b, c, d]] = [3]"
  "[3 + 1..<length [a, b, c, d]] = []"
  by (simp_all add: upt_conv_Cons)

lemma nth4: "[a, b, c, d] ! 0 = a" "[a, b, c, d] ! 1 = b" "[a, b, c, d] ! 2 = c"
  "[a, b, c, d] ! 3 = d"
  by (simp_all add: numeral_2_eq_2 numeral_3_eq_3)

lemma findParallelMirrorGroups4:
  assumes "\<not> areParallel a b" "areParallel a c" "\<not> areParallel a d"
    "\<not> areParallel b c" "areParallel b d" "areParallel c d"
  shows "findParallelMirrorGroups [a, b, c, d] =
     merge_pair c d (merge_pair b d (merge_pair a c []))"
  unfolding findParallelMirrorGroups_def
  by (simp only: upt4 fold_simps id_apply comp_apply nth4 assms if_True if_False)

text \<open>
  Claim C7 says that the groups returned by \<open>findParallelMirrorGroups\<close> are pairwise
  disjoint and that each mirror of a group is parallel to the others of that group. Being
  parallel within the tolerance is not transitive: for four mirrors of rotations 0, 6, 2
  and 4 degrees the pairs at 2 degrees from each other are parallel and the others are
  not. The mirror of rotation 4 ends in both groups, and shares the first group with the
  mirror of rotation 0, to which it is not parallel.
\<close>

theorem parallel_groups_overlap_counterexample:
  "findParallelMirrorGroups
     [Mirror 0 (Point 100 300) 6 400 0 None None None,
      Mirror 1 (Point 200 300) 6 400 6 None None None,
      Mirror 2 (Point 300 300) 6 400 2 None None None,
      Mirror 3 (Point 400 300) 6 400 4 None None None]
   = [[Mirror 0 (Point 100 300) 6 400 0 None None None,
       Mirror 2 (Point 300 300) 6 400 2 None None None,
       Mirror 3 (Point 400 300) 6 400 4 None None None],
      [Mirror 1 (Point 200 300) 6 400 6 None None None,
       Mirror 3 (Point 400 300) 6 400 4 None None None]]
   \<and> \<not> areParallel (Mirror 0 (Point 100 300) 6 400 0 None None None)
                     (Mirror 3 (Point 400 300) 6 400 4 None None None)"
proof -
  let ?m0 = "Mirror 0 (Point 100 300) 6 400 0 None None None"
  let ?m1 = "Mirror 1 (Point 200 300) 6 400 6 None None None"
  let ?m2 = "Mirror 2 (Point 300 300) 6 400 2 None None None"
  let ?m3 = "Mirror 3 (Point 400 300) 6 400 4 None None None"
  have pos: "0 \<le> cos (pi / 45)" "0 \<le> cos (pi / 30)" "0 \<le> cos (pi / 90)"
    by (rule cos_ge_zero; use pi_gt_zero in linarith)+
  have p02: "areParallel ?m0 ?m2" and p13: "areParallel ?m1 ?m3" and p23: "areParallel ?m2 ?m3"
    using cos_2deg pos by (simp_all add: areParallel_iff)
  have n03: "\<not> areParallel ?m0 ?m3" and n12: "\<not> areParallel ?m1 ?m2"
    using cos_4deg pos by (simp_all add: areParallel_iff)
  have n01: "\<not> areParallel ?m0 ?m1"
    using cos_6deg pos by (simp add: areParallel_iff)
  have "findParallelMirrorGroups [?m0, ?m1, ?m2, ?m3] =
          merge_pair ?m2 ?m3 (merge_pair ?m1 ?m3 (merge_pair ?m0 ?m2 []))"
    by (rule findParallelMirrorGroups4[OF n01 p02 n03 n12 p13 p23])
  also have "\<dots> = [[?m0, ?m2, ?m3], [?m1, ?m3]]"
    by (simp add: group_includes_simps same_mirror_def)
  finally show ?thesis using n03 by simp
qed

lemma areParallel_sym: "areParallel a b = areParallel b a"
  by (simp add: areParallel_def getMirrorNormal_def Let_def mult.commute)

lemma merge_pair_cases:
  "(\<exists>p < length gs. \<exists>g'.
       (group_includes (gs ! p) a \<or> group_includes (gs ! p) b)
       \<and> merge_pair a b gs = gs[p := g']
       \<and> set (gs ! p) \<subseteq> set g' \<and> set g' \<subseteq> set (gs ! p) \<union> {a, b}
       \<and> group_includes g' a \<and> group_includes g' b)
   \<or> ((\<forall>g \<in> set gs. \<not> group_includes g a \<and> \<not> group_includes g b)
       \<and> merge_pair a b gs = gs @ [[a, b]])"
proof (induction gs)
  case Nil
  then show ?case by simp
next
  case (Cons g gs)
  show ?case
  proof (cases "group_includes g a \<or> group_includes g b")
    case True
    let ?g1 = "if \<not> group_includes g a then g @ [a] else g"
    let ?g2 = "if \<not> group_includes ?g1 b then ?g1 @ [b] else ?g1"
    have m: "merge_pair a b (g # gs) = (g # gs)[0 := ?g2]"
      using True by (simp add: Let_def)
    have s: "set g \<subseteq> set ?g2" "set ?g2 \<subseteq> set g \<union> {a, b}"
      by auto
    have i: "group_includes ?g2 a" "group_includes ?g2 b"
      by (auto simp: group_includes_def same_mirror_def)
    show ?thesis
      apply (rule disjI1)
      apply (rule exI[of _ 0])
      using True m s i by (intro conjI exI[of _ ?g2]) simp_all
  next
    case False
    then have m: "merge_pair a b (g # gs) = g # merge_pair a b gs" by simp
    from Cons.IH show ?thesis
    proof
      assume "\<exists>p<length gs. \<exists>g'.
         (group_includes (gs ! p) a \<or> group_includes (gs ! p) b) \<and>
         merge_pair a b gs = gs[p := g'] \<and>
         set (gs ! p) \<subseteq> set g' \<and> set g' \<subseteq> set (gs ! p) \<union> {a, b} \<and>
         group_includes g' a \<and> group_includes g' b"
      then obtain p g' where p: "p < length gs"
        and h: "group_includes (gs ! p) a \<or> group_includes (gs ! p) b"
           "merge_pair a b gs = gs[p := g']"
           "set (gs ! p) \<subseteq> set g'" "set g' \<subseteq> set (gs ! p) \<union> {a, b}"
           "group_includes g' a" "group_includes g' b"
        by blast
      show ?thesis
        apply (rule disjI1)
        apply (rule exI[of _ "Suc p"])
        using p h m by (intro conjI exI[of _ g']) simp_all
    next
      assume "(\<forall>g\<in>set gs. \<not> group_includes g a \<and> \<not> group_includes g b) \<and>
                merge_pair a b gs = gs @ [[a, b]]"
      then show ?thesis using False m by simp
    qed
  qed
qed

lemma includes_iff_mem:
  assumes "inj_on m_ident (set ms)" and "set g \<subseteq> set ms" and "a \<in> set ms"
  shows "group_includes g a \<longleftrightarrow> a \<in> set g"
proof
  assume "group_includes g a"
  then obtain k where k: "k \<in> set g" "m_ident k = m_ident a"
    by (auto simp: group_includes_def same_mirror_def)
  with assms have "k = a" by (meson inj_onD subsetD)
  with k show "a \<in> set g" by simp
next
  assume "a \<in> set g"
  then show "group_includes g a" by (auto simp: group_includes_def same_mirror_def)
qed


lemma together_mono_update:
  assumes "together gs x y" and "p < length gs" and "set (gs ! p) \<subseteq> set g'"
  shows "together (gs[p := g']) x y"
proof -
  from assms(1) obtain g where g: "g \<in> set gs" "x \<in> set g" "y \<in> set g"
    unfolding together_def by blast
  from g(1) obtain q where "q < length gs" "gs ! q = g"
    by (meson in_set_conv_nth)
  with g have q: "q < length gs" "x \<in> set (gs ! q)" "y \<in> set (gs ! q)"
    by simp_all
  show ?thesis
  proof (cases "q = p")
    case True
    with q assms have "g' \<in> set (gs[p := g'])" "x \<in> set g'" "y \<in> set g'"
      by (auto simp: set_update_memI)
    then show ?thesis unfolding together_def by blast
  next
    case False
    with q have "gs ! q \<in> set (gs[p := g'])"
      by (metis length_list_update nth_list_update_neq nth_mem)
    with q show ?thesis unfolding together_def by blast
  qed
qed

lemma together_mono_append: "together gs x y \<Longrightarrow> together (gs @ hs) x y"
  by (auto simp: together_def)

lemma merge_step:
  assumes T: "parallel_transitive ms" and I: "inj_on m_ident (set ms)"
    and ok: "groups_ok ms gs" and cov: "cover_inv ms i gs" and orig: "origin_inv ms i gs"
    and i: "i < length ms" and j: "j < length ms" and ij: "i \<noteq> j"
    and par: "areParallel (ms ! i) (ms ! j)"
  shows "groups_ok ms (merge_pair (ms ! i) (ms ! j) gs)
       \<and> origin_inv ms i (merge_pair (ms ! i) (ms ! j) gs)
       \<and> together (merge_pair (ms ! i) (ms ! j) gs) (ms ! i) (ms ! j)
       \<and> (\<forall>x y. together gs x y \<longrightarrow> together (merge_pair (ms ! i) (ms ! j) gs) x y)"
proof -
  let ?a = "ms ! i" and ?b = "ms ! j"
  let ?R = areParallel
  have a: "?a \<in> set ms" and b: "?b \<in> set ms" using i j by simp_all
  have sub: "set g \<subseteq> set ms" if "g \<in> set gs" for g
    using ok that by (simp add: groups_ok_def)
  have inpar: "?R x y" if "g \<in> set gs" "x \<in> set g" "y \<in> set g" for g x y
    using ok that by (simp add: groups_ok_def)
  have cross: "\<not> ?R x y"
    if "p < length gs" "q < length gs" "p \<noteq> q" "x \<in> set (gs ! p)" "y \<in> set (gs ! q)"
    for p q x y
    using ok that by (simp add: groups_ok_def)
  have tr: "?R x z" if "x \<in> set ms" "y \<in> set ms" "z \<in> set ms" "?R x y" "?R y z" for x y z
    using T that unfolding parallel_transitive_def by blast
  have ba: "?R ?b ?a" using par by (simp add: areParallel_sym)
  from merge_pair_cases[of gs ?a ?b] consider
    (found) p g' where "p < length gs"
      "group_includes (gs ! p) ?a \<or> group_includes (gs ! p) ?b"
      "merge_pair ?a ?b gs = gs[p := g']"
      "set (gs ! p) \<subseteq> set g'" "set g' \<subseteq> set (gs ! p) \<union> {?a, ?b}"
      "group_includes g' ?a" "group_includes g' ?b"
  | (fresh) "\<forall>g\<in>set gs. \<not> group_includes g ?a \<and> \<not> group_includes g ?b"
      "merge_pair ?a ?b gs = gs @ [[?a, ?b]]"
    by blast
  then show ?thesis
  proof cases
    case (found p g')
    note p = found(1) and inc = found(2) and m = found(3) and s1 = found(4)
      and s2 = found(5) and ia = found(6) and ib = found(7)
    have gp: "gs ! p \<in> set gs" using p by simp
    have subp: "set (gs ! p) \<subseteq> set ms" by (rule sub[OF gp])
    have subg': "set g' \<subseteq> set ms" using s2 subp a b by auto
    have ag': "?a \<in> set g'" and bg': "?b \<in> set g'"
      using ia ib includes_iff_mem[OF I subg'] a b by simp_all
    have "?a \<in> set (gs ! p) \<or> ?b \<in> set (gs ! p)"
      using inc includes_iff_mem[OF I subp] a b by simp
    then obtain z where z: "z \<in> set (gs ! p)" "z = ?a \<or> z = ?b" by blast
    have zms: "z \<in> set ms" using z subp by blast
    have zx: "?R z x" if "x \<in> set g'" for x
    proof -
      from that s2 consider "x \<in> set (gs ! p)" | "x = ?a" | "x = ?b" by blast
      then show ?thesis
      proof cases
        case 1 then show ?thesis using inpar[OF gp z(1)] by simp
      next
        case 2 then show ?thesis using z(2) ba areParallel_refl by auto
      next
        case 3 then show ?thesis using z(2) par areParallel_refl by auto
      qed
    qed
    have xz: "?R x z" if "x \<in> set g'" for x
      using zx[OF that] by (simp add: areParallel_sym)
    have mem: "h = g' \<or> h \<in> set gs" if "h \<in> set (gs[p := g'])" for h
      using that set_update_subset_insert[of gs p g'] by auto
    have ok': "groups_ok ms (gs[p := g'])"
      unfolding groups_ok_def
    proof (intro conjI ballI allI impI)
      fix h assume h: "h \<in> set (gs[p := g'])"
      show "set h \<subseteq> set ms" using mem[OF h] subg' sub by blast
    next
      fix h x y assume h: "h \<in> set (gs[p := g'])" and x: "x \<in> set h" and y: "y \<in> set h"
      from mem[OF h] show "?R x y"
      proof
        assume "h = g'"
        with x y have xg: "x \<in> set g'" and yg: "y \<in> set g'" by simp_all
        show ?thesis
          by (rule tr[OF _ zms _ xz[OF xg] zx[OF yg]]) (use xg yg subg' in auto)
      next
        assume "h \<in> set gs"
        then show ?thesis using inpar x y by blast
      qed
    next
      fix p1 q1 x y
      assume p1: "p1 < length (gs[p := g'])" and q1: "q1 < length (gs[p := g'])"
        and ne: "p1 \<noteq> q1"
        and x: "x \<in> set (gs[p := g'] ! p1)" and y: "y \<in> set (gs[p := g'] ! q1)"
      from p1 q1 have p1': "p1 < length gs" and q1': "q1 < length gs" by simp_all
      show "\<not> ?R x y"
      proof
        assume r: "?R x y"
        show False
        proof (cases "p1 = p")
          case True
          with x p have xg: "x \<in> set g'" by simp
          from True ne y have yq: "y \<in> set (gs ! q1)" by simp
          have "y \<in> set ms" using yq sub[of "gs ! q1"] q1' by auto
          then have "?R z y"
            using tr[OF zms _ _ zx[OF xg] r] xg subg' by blast
          then show False using cross[OF p q1' _ z(1) yq] True ne by simp
        next
          case False
          then have xp: "x \<in> set (gs ! p1)" using x by simp
          have xms: "x \<in> set ms" using xp sub[of "gs ! p1"] p1' by auto
          show False
          proof (cases "q1 = p")
            case True
            with y p have yg: "y \<in> set g'" by simp
            have "?R x z"
              using tr[OF xms _ zms r xz[OF yg]] yg subg' by blast
            then have "?R z x" by (simp add: areParallel_sym)
            then show False using cross[OF p p1' _ z(1) xp] False by simp
          next
            case q: False
            then have "y \<in> set (gs ! q1)" using y by simp
            then show False using cross[OF p1' q1' ne xp] r by simp
          qed
        qed
      qed
    qed
    have g'in: "g' \<in> set (gs[p := g'])" using p by (simp add: set_update_memI)
    have tog: "together (gs[p := g']) ?a ?b"
      unfolding together_def using g'in ag' bg' by blast
    have toga: "together (gs[p := g']) ?a ?a"
      unfolding together_def using g'in ag' by blast
    have mono: "together (gs[p := g']) x y" if "together gs x y" for x y
      using together_mono_update[OF that p s1] .
    have orig': "origin_inv ms i (gs[p := g'])"
      unfolding origin_inv_def
    proof (intro ballI)
      fix h y assume h: "h \<in> set (gs[p := g'])" and y: "y \<in> set h"
      have old: "\<exists>k<length ms. ?R (ms ! k) y \<and> (k < i \<or> k = i \<and> together (gs[p := g']) ?a ?a)"
        if "g \<in> set gs" "y \<in> set g" for g
      proof -
        from orig that obtain k where "k < length ms" "?R (ms ! k) y"
          "k < i \<or> (k = i \<and> together gs ?a ?a)"
          unfolding origin_inv_def by blast
        then show ?thesis using toga by blast
      qed
      have new: "\<exists>k<length ms. ?R (ms ! k) y \<and> (k < i \<or> k = i \<and> together (gs[p := g']) ?a ?a)"
        if "y = ?a \<or> y = ?b"
        using that i par areParallel_refl toga by blast
      from mem[OF h] show "\<exists>k<length ms. ?R (ms ! k) y
            \<and> (k < i \<or> k = i \<and> together (gs[p := g']) ?a ?a)"
      proof
        assume "h = g'"
        with y s2 have "y \<in> set (gs ! p) \<or> y = ?a \<or> y = ?b" by blast
        then show ?thesis using old[OF gp] new by blast
      next
        assume "h \<in> set gs"
        then show ?thesis using old y by blast
      qed
    qed
    show ?thesis unfolding m using ok' orig' tog mono by blast
  next
    case fresh
    note none = fresh(1) and m = fresh(2)
    have notin: "?a \<notin> set g" "?b \<notin> set g" if "g \<in> set gs" for g
      using none that includes_iff_mem[OF I sub[OF that]] a b by blast+
    have nota: "\<not> together gs ?a ?a"
      unfolding together_def using notin by blast
    have far_a: "\<not> ?R ?a y" if g: "g \<in> set gs" and y: "y \<in> set g" for g y
    proof
      assume r: "?R ?a y"
      have yms: "y \<in> set ms" using sub[OF g] y by blast
      from orig g y obtain k where k: "k < length ms" "?R (ms ! k) y"
        "k < i \<or> (k = i \<and> together gs ?a ?a)"
        unfolding origin_inv_def by blast
      with nota have ki: "k < i" by blast
      have "?R y ?a" using r by (simp add: areParallel_sym)
      then have "?R (ms ! k) ?a"
        using tr[OF _ yms a k(2)] k(1) by simp
      then have "together gs (ms ! k) ?a"
        using cov ki k(1) i unfolding cover_inv_def by auto
      then have "together gs ?a ?a" unfolding together_def by blast
      with nota show False ..
    qed
    have far_b: "\<not> ?R ?b y" if g: "g \<in> set gs" and y: "y \<in> set g" for g y
    proof
      assume r: "?R ?b y"
      have yms: "y \<in> set ms" using sub[OF g] y by blast
      have "?R ?a y" by (rule tr[OF a b yms par r])
      then show False using far_a[OF g y] by simp
    qed
    have ok': "groups_ok ms (gs @ [[?a, ?b]])"
      unfolding groups_ok_def
    proof (intro conjI ballI allI impI)
      fix h assume "h \<in> set (gs @ [[?a, ?b]])"
      then show "set h \<subseteq> set ms" using sub a b by auto
    next
      fix h x y assume h: "h \<in> set (gs @ [[?a, ?b]])" and x: "x \<in> set h" and y: "y \<in> set h"
      from h have "h \<in> set gs \<or> h = [?a, ?b]" by auto
      then show "?R x y"
      proof
        assume "h \<in> set gs" then show ?thesis using inpar x y by blast
      next
        assume "h = [?a, ?b]"
        with x y have "x = ?a \<or> x = ?b" "y = ?a \<or> y = ?b" by auto
        then show ?thesis using par ba areParallel_refl by auto
      qed
    next
      fix p1 q1 x y
      assume p1: "p1 < length (gs @ [[?a, ?b]])" and q1: "q1 < length (gs @ [[?a, ?b]])"
        and ne: "p1 \<noteq> q1"
        and x: "x \<in> set ((gs @ [[?a, ?b]]) ! p1)" and y: "y \<in> set ((gs @ [[?a, ?b]]) ! q1)"
      show "\<not> ?R x y"
      proof (cases "p1 < length gs")
        case pl: True
        then have xp: "x \<in> set (gs ! p1)" using x by (simp add: nth_append)
        show ?thesis
        proof (cases "q1 < length gs")
          case True
          then have "y \<in> set (gs ! q1)" using y by (simp add: nth_append)
          then show ?thesis using cross[OF pl True ne xp] by simp
        next
          case False
          with q1 have "q1 = length gs" by simp
          with y have "y = ?a \<or> y = ?b" by (auto simp: nth_append)
          then have "\<not> ?R y x"
            using far_a[of "gs ! p1" x] far_b[of "gs ! p1" x] xp pl by auto
          then show ?thesis by (simp add: areParallel_sym)
        qed
      next
        case False
        with p1 have pe: "p1 = length gs" by simp
        with x have xab: "x = ?a \<or> x = ?b" by (auto simp: nth_append)
        from pe ne q1 have ql: "q1 < length gs" by simp
        then have "y \<in> set (gs ! q1)" using y by (simp add: nth_append)
        then show ?thesis
          using xab far_a[of "gs ! q1" y] far_b[of "gs ! q1" y] ql by auto
      qed
    qed
    have tog: "together (gs @ [[?a, ?b]]) ?a ?b" and toga: "together (gs @ [[?a, ?b]]) ?a ?a"
      unfolding together_def by auto
    have orig': "origin_inv ms i (gs @ [[?a, ?b]])"
      unfolding origin_inv_def
    proof (intro ballI)
      fix h y assume h: "h \<in> set (gs @ [[?a, ?b]])" and y: "y \<in> set h"
      from h have "h \<in> set gs \<or> h = [?a, ?b]" by auto
      then show "\<exists>k<length ms. ?R (ms ! k) y
            \<and> (k < i \<or> k = i \<and> together (gs @ [[?a, ?b]]) ?a ?a)"
      proof
        assume "h \<in> set gs"
        with orig y obtain k where "k < length ms" "?R (ms ! k) y"
          "k < i \<or> (k = i \<and> together gs ?a ?a)"
          unfolding origin_inv_def by blast
        then show ?thesis using toga by blast
      next
        assume "h = [?a, ?b]"
        with y have "y = ?a \<or> y = ?b" by auto
        then show ?thesis using i par areParallel_refl toga by blast
      qed
    qed
    show ?thesis unfolding m using ok' orig' tog together_mono_append by blast
  qed
qed


lemma cover_inv_mono:
  "cover_inv ms i gs \<Longrightarrow> (\<forall>x y. together gs x y \<longrightarrow> together gs' x y) \<Longrightarrow> cover_inv ms i gs'"
  unfolding cover_inv_def by blast

lemma pair_step_inv:
  assumes T: "parallel_transitive ms" and I: "inj_on m_ident (set ms)"
    and ok: "groups_ok ms gs" and cov: "cover_inv ms i gs" and orig: "origin_inv ms i gs"
    and i: "i < length ms" and j: "j < length ms" and ij: "i \<noteq> j"
  shows "groups_ok ms (pair_step ms i j gs) \<and> cover_inv ms i (pair_step ms i j gs)
       \<and> origin_inv ms i (pair_step ms i j gs)
       \<and> (areParallel (ms ! i) (ms ! j) \<longrightarrow> together (pair_step ms i j gs) (ms ! i) (ms ! j))
       \<and> (\<forall>x y. together gs x y \<longrightarrow> together (pair_step ms i j gs) x y)"
proof (cases "areParallel (ms ! i) (ms ! j)")
  case True
  from merge_step[OF T I ok cov orig i j ij True] cover_inv_mono[OF cov]
  show ?thesis by (simp add: pair_step_def True)
next
  case False
  then show ?thesis using ok cov orig by (simp add: pair_step_def)
qed

lemma inner_loop:
  assumes T: "parallel_transitive ms" and I: "inj_on m_ident (set ms)"
    and i: "i < length ms" and js: "\<forall>j \<in> set js. j < length ms \<and> j \<noteq> i"
    and ok: "groups_ok ms gs" and cov: "cover_inv ms i gs" and orig: "origin_inv ms i gs"
  shows "groups_ok ms (fold (pair_step ms i) js gs)
       \<and> cover_inv ms i (fold (pair_step ms i) js gs)
       \<and> origin_inv ms i (fold (pair_step ms i) js gs)
       \<and> (\<forall>j \<in> set js. areParallel (ms ! i) (ms ! j)
              \<longrightarrow> together (fold (pair_step ms i) js gs) (ms ! i) (ms ! j))
       \<and> (\<forall>x y. together gs x y \<longrightarrow> together (fold (pair_step ms i) js gs) x y)"
  using js ok cov orig
proof (induction js arbitrary: gs)
  case Nil
  then show ?case by simp
next
  case (Cons j js)
  let ?gs1 = "pair_step ms i j gs"
  have j: "j < length ms" and ij: "i \<noteq> j" using Cons.prems(1) by auto
  from pair_step_inv[OF T I Cons.prems(2,3,4) i j ij]
  have ok1: "groups_ok ms ?gs1" and cov1: "cover_inv ms i ?gs1"
    and orig1: "origin_inv ms i ?gs1"
    and tog1: "areParallel (ms ! i) (ms ! j) \<longrightarrow> together ?gs1 (ms ! i) (ms ! j)"
    and mono1: "\<forall>x y. together gs x y \<longrightarrow> together ?gs1 x y"
    by blast+
  have js': "\<forall>j \<in> set js. j < length ms \<and> j \<noteq> i" using Cons.prems(1) by simp
  from Cons.IH[OF js' ok1 cov1 orig1]
  have r: "groups_ok ms (fold (pair_step ms i) js ?gs1)"
    "cover_inv ms i (fold (pair_step ms i) js ?gs1)"
    "origin_inv ms i (fold (pair_step ms i) js ?gs1)"
    "\<forall>j \<in> set js. areParallel (ms ! i) (ms ! j)
              \<longrightarrow> together (fold (pair_step ms i) js ?gs1) (ms ! i) (ms ! j)"
    "\<forall>x y. together ?gs1 x y \<longrightarrow> together (fold (pair_step ms i) js ?gs1) x y"
    by blast+
  show ?case using r tog1 mono1 by simp
qed

lemma findParallelMirrorGroups_fold:
  "findParallelMirrorGroups ms =
     fold (\<lambda>i. fold (pair_step ms i) [i + 1..<length ms]) [0..<length ms] []"
  unfolding findParallelMirrorGroups_def pair_step_def by (rule refl)

lemma together_sym: "together gs x y \<Longrightarrow> together gs y x"
  unfolding together_def by blast

lemma outer_loop:
  assumes T: "parallel_transitive ms" and I: "inj_on m_ident (set ms)"
  shows "m \<le> length ms \<Longrightarrow>
       groups_ok ms (fold (\<lambda>i. fold (pair_step ms i) [i + 1..<length ms]) [0..<m] [])
       \<and> cover_inv ms m (fold (\<lambda>i. fold (pair_step ms i) [i + 1..<length ms]) [0..<m] [])
       \<and> (\<forall>g \<in> set (fold (\<lambda>i. fold (pair_step ms i) [i + 1..<length ms]) [0..<m] []).
            \<forall>y \<in> set g. \<exists>k < m. k < length ms \<and> areParallel (ms ! k) y)"
proof (induction m)
  case 0
  show ?case by (simp add: groups_ok_def cover_inv_def)
next
  case (Suc m)
  let ?gs0 = "fold (\<lambda>i. fold (pair_step ms i) [i + 1..<length ms]) [0..<m] []"
  let ?gs1 = "fold (pair_step ms m) [m + 1..<length ms] ?gs0"
  have m: "m < length ms" using Suc.prems by simp
  from Suc.IH m have ok0: "groups_ok ms ?gs0" and cov0: "cover_inv ms m ?gs0"
    and o0: "\<forall>g \<in> set ?gs0. \<forall>y \<in> set g. \<exists>k < m. k < length ms \<and> areParallel (ms ! k) y"
    by simp_all
  have orig0: "origin_inv ms m ?gs0"
    unfolding origin_inv_def using o0 by blast
  have js: "\<forall>j \<in> set [m + 1..<length ms]. j < length ms \<and> j \<noteq> m" by simp
  from inner_loop[OF T I m js ok0 cov0 orig0]
  have ok1: "groups_ok ms ?gs1" and cov1: "cover_inv ms m ?gs1"
    and orig1: "origin_inv ms m ?gs1"
    and tog1: "\<forall>j \<in> set [m + 1..<length ms]. areParallel (ms ! m) (ms ! j)
              \<longrightarrow> together ?gs1 (ms ! m) (ms ! j)"
    by blast+
  have e: "fold (\<lambda>i. fold (pair_step ms i) [i + 1..<length ms]) [0..<Suc m] [] = ?gs1"
    by simp
  have cov2: "cover_inv ms (Suc m) ?gs1"
    unfolding cover_inv_def
  proof (intro allI impI)
    fix k l
    assume k: "k < Suc m" and l: "l < length ms"
      and h: "k < length ms \<and> k \<noteq> l \<and> areParallel (ms ! k) (ms ! l)"
    show "together ?gs1 (ms ! k) (ms ! l)"
    proof (cases "k < m")
      case True
      then show ?thesis using cov1 l h unfolding cover_inv_def by blast
    next
      case False
      with k have km: "k = m" by simp
      show ?thesis
      proof (cases "m < l")
        case True
        then have "l \<in> set [m + 1..<length ms]" using l by simp
        then show ?thesis using tog1 h km by blast
      next
        case False
        with h km have lm: "l < m" by simp
        have "areParallel (ms ! l) (ms ! m)" using h km by (simp add: areParallel_sym)
        then have "together ?gs1 (ms ! l) (ms ! m)"
          using cov1 lm m l unfolding cover_inv_def by auto
        then show ?thesis using km by (simp add: together_sym)
      qed
    qed
  qed
  have o2: "\<forall>g \<in> set ?gs1. \<forall>y \<in> set g. \<exists>k < Suc m. k < length ms \<and> areParallel (ms ! k) y"
  proof (intro ballI)
    fix g y assume "g \<in> set ?gs1" "y \<in> set g"
    with orig1 obtain k where "k < length ms" "areParallel (ms ! k) y" "k < m \<or> k = m"
      unfolding origin_inv_def by blast
    then show "\<exists>k < Suc m. k < length ms \<and> areParallel (ms ! k) y"
      by (metis less_Suc_eq)
  qed
  show ?case unfolding e using ok1 cov2 o2 by blast
qed

text \<open>
  Claim C7, amended. For every list of mirrors on which being parallel is transitive (and
  in which one identity denotes one object), the groups returned by
  \<open>findParallelMirrorGroups\<close> are pairwise disjoint: no mirror is included in two of
  them; and each group holds mirrors of the list that are parallel two by two.
\<close>

theorem parallel_groups_partition:
  assumes I: "inj_on m_ident (set mirrors)" and T: "parallel_transitive mirrors"
  shows "(\<forall>p q. p < q \<and> q < length (findParallelMirrorGroups mirrors) \<longrightarrow>
            \<not> (\<exists>m. group_includes (findParallelMirrorGroups mirrors ! p) m
                   \<and> group_includes (findParallelMirrorGroups mirrors ! q) m))
       \<and> (\<forall>g \<in> set (findParallelMirrorGroups mirrors).
            set g \<subseteq> set mirrors \<and> (\<forall>a \<in> set g. \<forall>b \<in> set g. areParallel a b))"
proof -
  let ?gs = "findParallelMirrorGroups mirrors"
  from outer_loop[OF T I, of "length mirrors"] have ok: "groups_ok mirrors ?gs"
    by (simp add: findParallelMirrorGroups_fold)
  have dis: "\<not> (\<exists>m. group_includes (?gs ! p) m \<and> group_includes (?gs ! q) m)"
    if pq: "p < q" "q < length ?gs" for p q
  proof
    assume "\<exists>m. group_includes (?gs ! p) m \<and> group_includes (?gs ! q) m"
    then obtain m x y where x: "x \<in> set (?gs ! p)" "m_ident x = m_ident m"
      and y: "y \<in> set (?gs ! q)" "m_ident y = m_ident m"
      by (auto simp: group_includes_def same_mirror_def)
    have p: "p < length ?gs" using pq by simp
    have "x \<in> set mirrors" "y \<in> set mirrors"
      using ok x(1) y(1) p pq(2) nth_mem unfolding groups_ok_def by blast+
    with x y I have "x = y" by (metis inj_onD)
    then have "areParallel x y" by (simp add: areParallel_refl)
    moreover have "\<not> areParallel x y"
      using ok p pq x(1) y(1) unfolding groups_ok_def by (metis less_irrefl)
    ultimately show False by simp
  qed
  show ?thesis using dis ok unfolding groups_ok_def by blast
qed

theorem parallel_groups_partition_witness:
  "inj_on m_ident (set [Mirror 0 (Point 380 300) 6 400 180 None None None,
                         Mirror 1 (Point 620 300) 6 400 180 None None None,
                         Mirror 2 (Point 500 150) 6 400 90 None None None])
   \<and> findParallelMirrorGroups
         [Mirror 0 (Point 380 300) 6 400 180 None None None,
          Mirror 1 (Point 620 300) 6 400 180 None None None,
          Mirror 2 (Point 500 150) 6 400 90 None None None]
       = [[Mirror 0 (Point 380 300) 6 400 180 None None None,
           Mirror 1 (Point 620 300) 6 400 180 None None None]]
   \<and> areParallel (Mirror 1 (Point 620 300) 6 400 180 None None None)
                 (Mirror 0 (Point 380 300) 6 400 180 None None None)"
proof -
  let ?a = "Mirror 0 (Point 380 300) 6 400 180 None None None"
  let ?b = "Mirror 1 (Point 620 300) 6 400 180 None None None"
  let ?c = "Mirror 2 (Point 500 150) 6 400 90 None None None"
  have I: "inj_on m_ident (set [?a, ?b, ?c])"
    by simp
  have p: "areParallel ?a ?b" "areParallel ?b ?a"
    by (simp_all add: areParallel_iff)
  have n: "\<not> areParallel ?a ?c" "\<not> areParallel ?c ?a"
          "\<not> areParallel ?b ?c" "\<not> areParallel ?c ?b"
    by (simp_all add: areParallel_iff)
  have T: "parallel_transitive [?a, ?b, ?c]"
    using p n by (simp add: parallel_transitive_def areParallel_refl)
  have g: "findParallelMirrorGroups [?a, ?b, ?c] = [[?a, ?b]]"
    by (simp only: findParallelMirrorGroups3 Let_def p n if_True if_False merge_pair.simps)
  from parallel_groups_partition[OF I T]
  have "\<forall>x \<in> set [?a, ?b]. \<forall>y \<in> set [?a, ?b]. areParallel x y"
    unfolding g by simp
  then have "areParallel ?b ?a"
    by simp
  with I g show ?thesis
    by simp
qed

end
